theory Spec2Isabelle
  imports Main "HOL-Library.Word" "HOL-Library.Sublist"
begin

unbundle bit_operations_syntax

section \<open>The in-namespace init of \<open>nsinit\<close>: a shallow embedding\<close>

text \<open>
  The Go function \<open>Init\<close> of \<open>sysinit.go\<close> (package \<open>nsinit\<close>) and its helpers
  \<open>LoadContainerEnvironment\<close>, \<open>setupNetwork\<close>, \<open>RestoreParentDeathSignal\<close> and
  \<open>writeUserMappings\<close> are sequences of calls into the kernel, the Go standard library
  and sibling packages. The embedding keeps the control flow of the source and makes
  the two things the source leaves implicit explicit:
  \<^item> the process state: the live environment and the log of external calls issued so
    far, in order (\<open>proc_state\<close>);
  \<^item> the answers of the outside world: one field of the record \<open>world\<close> per external
    function, giving the error (or value) that function returns for its arguments.
  Go's \<open>error\<close> results are \<open>error option\<close> (\<open>None\<close> is \<open>nil\<close>), a pair
  \<open>(value, error)\<close> is \<open>error + value\<close>. \<open>SetupUser\<close> and \<open>FinalizeNamespace\<close> are
  not embedded: \<open>Init\<close> does not call them (the call is commented out in the source).
\<close>

subsection \<open>Errors and formatting\<close>

text \<open>
  An error is either produced by an external function (\<open>External\<close>, with its message)
  or built in this file by \<open>fmt.Errorf\<close> (\<open>Errorf\<close>, with the formatted message).
\<close>

datatype error = External string | Errorf string

type_synonym failure = string

fun Error :: "error \<Rightarrow> string" where
  "Error (External m) = m"
| "Error (Errorf m) = m"

text \<open>\<open>fmt.Errorf(prefix + "%s", err)\<close>.\<close>

definition Errorf_s :: "string \<Rightarrow> error \<Rightarrow> error" where
  "Errorf_s pre err = Errorf (pre @ Error err)"

text \<open>The verb \<open>%v\<close> on a Go \<open>int\<close>: decimal digits, with a leading minus sign.\<close>

fun digits :: "nat \<Rightarrow> string" where
  "digits n =
     (if n < 10 then [''0123456789'' ! n]
      else digits (n div 10) @ [''0123456789'' ! (n mod 10)])"

declare digits.simps [simp del]

definition Sprint_int :: "int \<Rightarrow> string" where
  "Sprint_int i = (if i < 0 then CHR ''-'' # digits (nat (- i)) else digits (nat i))"

subsection \<open>Container configuration\<close>

text \<open>
  Modelled from the spec: \<open>libcontainer.Context\<close>, whose declaration is not among the
  sources: a mapping of string keys to string values. Reading a missing key of a Go
  map gives the empty string (\<open>index\<close>).
\<close>

type_synonym Context = "string \<rightharpoonup> string"

definition index :: "Context \<Rightarrow> string \<Rightarrow> string" where
  "index m k = (case m k of None \<Rightarrow> [] | Some v \<Rightarrow> v)"

text \<open>
  Modelled from the spec: \<open>libcontainer.Network\<close>, whose declaration is not among the
  sources: a network endpoint configuration with its declared type string. The code
  reads \<open>Type\<close> only; the other fields stand for the settings an attachment strategy
  applies (address, default route, MTU).
\<close>

record Network =
  Type :: string
  Address :: string
  Gateway :: string
  Mtu :: int

text \<open>
  Modelled from the spec: \<open>libcontainer.Container\<close>, whose declaration is not among the
  sources. Of the container configuration \<open>Init\<close> reads the host name, the declared
  environment (a sequence of \<open>KEY=VALUE\<close> strings), the network endpoints and the
  mapping of named security-context fields.
\<close>

record Container =
  Hostname :: string
  Env :: "string list"
  Networks :: "Network list"
  Context :: Context

text \<open>
  Modelled from the spec: the strategy that \<open>network.GetStrategy\<close> resolves for a type
  string, an interface of a package that is not among the sources; it is known here by
  the name it is registered under.
\<close>

type_synonym NetworkStrategy = string

subsection \<open>External calls, process state, the outside world\<close>

text \<open>
  The calls that leave this file, named as the source names them and with the arguments
  the source passes: to the kernel (\<open>syscall\<close>, \<open>system\<close>), to the Go library (\<open>os\<close>,
  \<open>ioutil\<close>, \<open>log\<close>, \<open>runtime\<close>) and to the other packages (\<open>utils\<close>, \<open>console\<close>,
  \<open>network\<close>, \<open>label\<close>, \<open>mount\<close>, \<open>apparmor\<close>, \<open>restrict\<close>, the sync pipe). The two
  sync pipes are the one \<open>Init\<close> is given and the one it creates before the clone; a
  wait status is the 32-bit \<open>syscall.WaitStatus\<close>.
\<close>

datatype pipe = ParentPipe | NestedPipe

type_synonym WaitStatus = "32 word"

datatype call =
    ResolveRootfs string
  | Clearenv
  | Setenv string string
  | ReadFromParent
  | Close pipe
  | OpenAndDup string
  | Setsid
  | Setctty
  | GetStrategy string
  | Initialize NetworkStrategy Network Context
  | LabelInit
  | InitializeMountNamespace string string
  | Sethostname string
  | OpenFile string nat nat
  | LockOSThread
  | ApplyProfile string
  | SetProcessLabel string
  | Restrict string
  | GetParentDeathSignal
  | ParentDeathSignal "64 word"
  | Getppid
  | Getpid
  | Kill int int
  | Prctl int "64 word" "64 word" "64 word" "64 word"
  | Setuid int
  | Setgid int
  | NewSyncPipe
  | Clone "64 word"
  | Println string
  | FindProcess int
  | WriteFile string string nat
  | ProcessKill int
  | ProcessWait int
  | Exec string "string list" "string list"

text \<open>
  The process state: the live environment, and the log of the calls issued so far.
\<close>

record proc_state =
  environ :: "string \<rightharpoonup> string"
  calls :: "call list"

text \<open>
  What each external function answers. None of them is defined in the sources, so each
  is a parameter: a run of \<open>Init\<close> is determined by the container, the arguments and
  one \<open>world\<close>, and a property proved for all worlds holds whatever the kernel and the
  other packages do. When a function fails, the answer is the message of the error it
  returns (\<open>failure\<close>), which the caller sees as an \<open>External\<close> error. An answer
  depends on the arguments of the call; \<open>system.GetParentDeathSignal\<close>, which has
  none, is read twice (the capture in \<open>Init\<close>, the re-read in
  \<open>RestoreParentDeathSignal\<close>) and has a field for each read, since the two may differ.
\<close>

record world =
  utils_ResolveRootfs :: "string \<Rightarrow> failure + string"
  os_Setenv :: "string \<Rightarrow> string \<Rightarrow> failure option"
  syncPipe_ReadFromParent :: "failure + Context"
  console_OpenAndDup :: "string \<Rightarrow> failure option"
  system_Setsid :: "failure option"
  system_Setctty :: "failure option"
  network_GetStrategy :: "string \<Rightarrow> failure + NetworkStrategy"
  strategy_Initialize :: "NetworkStrategy \<Rightarrow> Network \<Rightarrow> Context \<Rightarrow> failure option"
  mount_InitializeMountNamespace :: "string \<Rightarrow> string \<Rightarrow> Container \<Rightarrow> failure option"
  system_Sethostname :: "string \<Rightarrow> failure option"
  os_OpenFile :: "string \<Rightarrow> failure option"
  apparmor_ApplyProfile :: "string \<Rightarrow> failure option"
  label_SetProcessLabel :: "string \<Rightarrow> failure option"
  restrict_Restrict :: "string \<Rightarrow> failure option"
  captured_ParentDeathSignal :: "failure + int"
  current_ParentDeathSignal :: "failure + int"
  system_ParentDeathSignal :: "64 word \<Rightarrow> failure option"
  syscall_Getppid :: int
  syscall_Getpid :: int
  syscall_Kill :: "int \<Rightarrow> int \<Rightarrow> failure option"
  system_Prctl :: "int \<Rightarrow> 64 word \<Rightarrow> failure option"
  system_Setuid :: "int \<Rightarrow> failure option"
  system_Setgid :: "int \<Rightarrow> failure option"
  nsinit_NewSyncPipe :: "failure option"
  system_Clone :: "64 word \<Rightarrow> failure + int"
  os_FindProcess :: "int \<Rightarrow> failure option"
  ioutil_WriteFile :: "string \<Rightarrow> string \<Rightarrow> nat \<Rightarrow> failure option"
  proc_Wait :: "int \<Rightarrow> failure + WaitStatus"
  syscall_Exec :: "string \<Rightarrow> string list \<Rightarrow> string list \<Rightarrow> failure option"

text \<open>
  Issuing an external call appends it to the log and hands back its answer: an error
  or \<open>nil\<close> (\<open>invoke\<close>), a value or an error (\<open>invoke_v\<close>), a plain value
  (\<open>ask\<close>), or nothing that the source looks at (\<open>issue\<close>).
\<close>

definition issue :: "call \<Rightarrow> proc_state \<Rightarrow> proc_state" where
  "issue c s = s\<lparr>calls := calls s @ [c]\<rparr>"

definition invoke :: "call \<Rightarrow> failure option \<Rightarrow> proc_state \<Rightarrow> error option \<times> proc_state" where
  "invoke c r s = (map_option External r, issue c s)"

definition invoke_v ::
  "call \<Rightarrow> failure + 'a \<Rightarrow> proc_state \<Rightarrow> (error + 'a) \<times> proc_state" where
  "invoke_v c r s = (map_sum External id r, issue c s)"

definition ask :: "call \<Rightarrow> 'a \<Rightarrow> proc_state \<Rightarrow> 'a \<times> proc_state" where
  "ask c r s = (r, issue c s)"

text \<open>
  How \<open>Init\<close> ends: it returns to its caller (\<open>nil\<close> or an error), the process
  exits through \<open>os.Exit\<close>, its image is replaced by a successful \<open>exec\<close>, or the Go
  runtime panics (an index out of range).
\<close>

datatype outcome =
    Return "error option"
  | Exited int
  | Execed string "string list" "string list"
  | Panic

text \<open>
  \<open>Init\<close> is read in segments. A segment either ends \<open>Init\<close> (\<open>Inl\<close> of the
  outcome) or falls through to the next one with a value (\<open>Inr\<close>, by \<open>proceed\<close>).
\<close>

type_synonym 'a segment = "proc_state \<Rightarrow> (outcome + 'a) \<times> proc_state"

definition proceed :: "'a \<Rightarrow> 'a segment" where
  "proceed v s = (Inr v, s)"

text \<open>
  The pattern \<open>if err := f(); err != nil { return wrap(err) }\<close>, for a function
  returning an error and for one returning a value and an error.
\<close>

definition on_nil ::
  "(proc_state \<Rightarrow> error option \<times> proc_state) \<Rightarrow> (error \<Rightarrow> error) \<Rightarrow>
   'a segment \<Rightarrow> 'a segment" where
  "on_nil f wrap k s =
     (case f s of
        (Some err, s') \<Rightarrow> (Inl (Return (Some (wrap err))), s')
      | (None, s') \<Rightarrow> k s')"

definition on_ok ::
  "(proc_state \<Rightarrow> (error + 'b) \<times> proc_state) \<Rightarrow> (error \<Rightarrow> error) \<Rightarrow>
   ('b \<Rightarrow> 'a segment) \<Rightarrow> 'a segment" where
  "on_ok f wrap k s =
     (case f s of
        (Inl err, s') \<Rightarrow> (Inl (Return (Some (wrap err))), s')
      | (Inr v, s') \<Rightarrow> k v s')"

text \<open>
  The same pattern under a condition:
  \<open>if b { if err := f(); err != nil { return wrap(err) } }\<close>.
\<close>

definition guarded ::
  "bool \<Rightarrow> (proc_state \<Rightarrow> error option \<times> proc_state) \<Rightarrow> (error \<Rightarrow> error) \<Rightarrow>
   'a segment \<Rightarrow> 'a segment" where
  "guarded b f wrap k = (if b then on_nil f wrap k else k)"

text \<open>A call that returns nothing, or whose result the source ignores.\<close>

definition void :: "call \<Rightarrow> 'a segment \<Rightarrow> 'a segment" where
  "void c k s = k (issue c s)"

text \<open>One segment after another.\<close>

definition and_then ::
  "'a segment \<Rightarrow> ('a \<Rightarrow> proc_state \<Rightarrow> outcome \<times> proc_state) \<Rightarrow>
   proc_state \<Rightarrow> outcome \<times> proc_state" where
  "and_then sec k s =
     (case sec s of
        (Inl out, s') \<Rightarrow> (out, s')
      | (Inr v, s') \<Rightarrow> k v s')"

subsection \<open>\<open>LoadContainerEnvironment\<close>\<close>

text \<open>
  \<open>strings.SplitN(pair, "=", 2)\<close>: the whole string when it has no \<open>=\<close>, else the
  part before the first \<open>=\<close> and everything after it.
\<close>

definition SplitN_eq_2 :: "string \<Rightarrow> string list" where
  "SplitN_eq_2 pair =
     (if CHR ''='' \<in> set pair
      then [takeWhile (\<lambda>c. c \<noteq> CHR ''='') pair, tl (dropWhile (\<lambda>c. c \<noteq> CHR ''='') pair)]
      else [pair])"

text \<open>\<open>os.Clearenv\<close> empties the environment; a successful \<open>os.Setenv\<close> binds the key.\<close>

definition Clearenv_call :: "proc_state \<Rightarrow> proc_state" where
  "Clearenv_call s = issue Clearenv (s\<lparr>environ := Map.empty\<rparr>)"

definition Setenv_call :: "world \<Rightarrow> string \<Rightarrow> string \<Rightarrow> proc_state \<Rightarrow> error option \<times> proc_state" where
  "Setenv_call w key val s =
     (case os_Setenv w key val of
        Some m \<Rightarrow> (Some (External m), issue (Setenv key val) s)
      | None \<Rightarrow> (None, issue (Setenv key val) (s\<lparr>environ := (environ s)(key \<mapsto> val)\<rparr>)))"

fun set_pairs :: "world \<Rightarrow> string list \<Rightarrow> proc_state \<Rightarrow> error option \<times> proc_state" where
  "set_pairs w [] s = (None, s)"
| "set_pairs w (pair # rest) s =
     (let p = SplitN_eq_2 pair in
      if length p < 2 then (Some (Errorf (''invalid environment '' @ [CHR 0x27] @ pair @ [CHR 0x27])), s)
      else (case Setenv_call w (p ! 0) (p ! 1) s of
              (Some err, s') \<Rightarrow> (Some err, s')
            | (None, s') \<Rightarrow> set_pairs w rest s'))"

definition LoadContainerEnvironment ::
  "world \<Rightarrow> Container \<Rightarrow> proc_state \<Rightarrow> error option \<times> proc_state" where
  "LoadContainerEnvironment w container s = set_pairs w (Env container) (Clearenv_call s)"

subsection \<open>\<open>setupNetwork\<close>\<close>

fun setupNetwork_loop ::
  "world \<Rightarrow> Network list \<Rightarrow> Context \<Rightarrow> proc_state \<Rightarrow> error option \<times> proc_state" where
  "setupNetwork_loop w [] context s = (None, s)"
| "setupNetwork_loop w (config # rest) context s =
     (case invoke_v (GetStrategy (Type config)) (network_GetStrategy w (Type config)) s of
        (Inl err, s1) \<Rightarrow> (Some err, s1)
      | (Inr strategy, s1) \<Rightarrow>
          (case invoke (Initialize strategy config context)
                       (strategy_Initialize w strategy config context) s1 of
             (Some err1, s2) \<Rightarrow> (Some err1, s2)
           | (None, s2) \<Rightarrow> setupNetwork_loop w rest context s2))"

definition setupNetwork ::
  "world \<Rightarrow> Container \<Rightarrow> Context \<Rightarrow> proc_state \<Rightarrow> error option \<times> proc_state" where
  "setupNetwork w container context s = setupNetwork_loop w (Networks container) context s"

subsection \<open>\<open>writeUserMappings\<close>\<close>

definition mode_0644 :: nat where
  "mode_0644 = 6 * 64 + 4 * 8 + 4"

definition uid_map_path :: "int \<Rightarrow> string" where
  "uid_map_path pid = ''/proc/'' @ Sprint_int pid @ ''/uid_map''"

definition gid_map_path :: "int \<Rightarrow> string" where
  "gid_map_path pid = ''/proc/'' @ Sprint_int pid @ ''/gid_map''"

fun writeUserMappings_loop ::
  "world \<Rightarrow> string list \<Rightarrow> string \<Rightarrow> proc_state \<Rightarrow> error option \<times> proc_state" where
  "writeUserMappings_loop w [] mappings s = (None, s)"
| "writeUserMappings_loop w (p # ps) mappings s =
     (case invoke (WriteFile p mappings mode_0644) (ioutil_WriteFile w p mappings mode_0644) s of
        (Some err, s') \<Rightarrow> (Some err, s')
      | (None, s') \<Rightarrow> writeUserMappings_loop w ps mappings s')"

definition writeUserMappings ::
  "world \<Rightarrow> int \<Rightarrow> string \<Rightarrow> proc_state \<Rightarrow> error option \<times> proc_state" where
  "writeUserMappings w pid mappings s =
     writeUserMappings_loop w [uid_map_path pid, gid_map_path pid] mappings s"

subsection \<open>\<open>RestoreParentDeathSignal\<close>\<close>

text \<open>\<open>uintptr(old)\<close> and \<open>syscall.Signal(old)\<close> convert the Go \<open>int\<close>.\<close>

definition uintptr :: "int \<Rightarrow> 64 word" where
  "uintptr i = word_of_int i"

definition RestoreParentDeathSignal ::
  "world \<Rightarrow> int \<Rightarrow> proc_state \<Rightarrow> error option \<times> proc_state" where
  "RestoreParentDeathSignal w old s =
     (if old = 0 then (None, s)
      else
        (case invoke_v GetParentDeathSignal (current_ParentDeathSignal w) s of
           (Inl err, s1) \<Rightarrow> (Some (Errorf_s ''get parent death signal '' err), s1)
         | (Inr current, s1) \<Rightarrow>
             if old = current then (None, s1)
             else
               (case invoke (ParentDeathSignal (uintptr old))
                            (system_ParentDeathSignal w (uintptr old)) s1 of
                  (Some err, s2) \<Rightarrow> (Some (Errorf_s ''set parent death signal '' err), s2)
                | (None, s2) \<Rightarrow>
                    (case ask Getppid (syscall_Getppid w) s2 of
                       (ppid, s3) \<Rightarrow>
                         if ppid = 1 then
                           (case ask Getpid (syscall_Getpid w) s3 of
                              (pid, s4) \<Rightarrow>
                                invoke (Kill pid old) (syscall_Kill w pid old) s4)
                         else (None, s3)))))"

subsection \<open>\<open>Init\<close>\<close>

text \<open>
  Constants of Go's \<open>syscall\<close> and \<open>os\<close> packages on Linux (standard library, with
  the kernel's values), and the wait status of \<open>syscall.WaitStatus\<close>:
  \<open>Exited\<close> is \<open>w&0x7F == 0\<close>, and \<open>ExitStatus\<close> is \<open>-1\<close> unless the process
  exited, else \<open>int(w>>8) & 0xFF\<close>.
\<close>

definition PR_SET_SECUREBITS :: int where "PR_SET_SECUREBITS = 28"
definition CLONE_NEWUSER :: int where "CLONE_NEWUSER = 0x10000000"
definition CLONE_FILES :: int where "CLONE_FILES = 0x400"
definition SIGCHLD :: int where "SIGCHLD = 0x11"
definition O_CREATE :: nat where "O_CREATE = 0x40"
definition O_WRONLY :: nat where "O_WRONLY = 0x1"
definition O_APPEND :: nat where "O_APPEND = 0x400"

definition mode_0666 :: nat where
  "mode_0666 = 6 * 64 + 6 * 8 + 6"

definition ExitStatus :: "WaitStatus \<Rightarrow> int" where
  "ExitStatus ws = (if ws AND 0x7F \<noteq> 0 then - 1 else uint (drop_bit 8 ws) AND 0xFF)"

text \<open>
  The status the kernel records for a process that calls \<open>os.Exit(code)\<close>: the low
  eight bits of the code.
\<close>

fun exit_status :: "outcome \<Rightarrow> int option" where
  "exit_status (Exited code) = Some (code mod 256)"
| "exit_status _ = None"

text \<open>The local constants of \<open>Init\<close>.\<close>

definition secbit_keep_caps :: int where "secbit_keep_caps = 4"
definition secbit_no_setuid_fixup :: int where "secbit_no_setuid_fixup = 2"
definition dockerRootUid :: int where "dockerRootUid = 1017"
definition dockerRootGid :: int where "dockerRootGid = 1017"

text \<open>
  Lines 102 to 147: root filesystem, environment, handshake, console and session,
  network, labels, mount namespace and host name.
\<close>

definition Init_setup ::
  "world \<Rightarrow> Container \<Rightarrow> string \<Rightarrow> string \<Rightarrow> unit segment" where
  "Init_setup w container uncleanRootfs consolePath =
     on_ok (invoke_v (ResolveRootfs uncleanRootfs) (utils_ResolveRootfs w uncleanRootfs)) id
       (\<lambda>rootfs.
     on_nil (LoadContainerEnvironment w container) id (\<lambda>s0.
       case invoke_v ReadFromParent (syncPipe_ReadFromParent w) s0 of
         (Inl err, s1) \<Rightarrow> (Inl (Return (Some err)), issue (Close ParentPipe) s1)
       | (Inr context, s1) \<Rightarrow>
           (void (Close ParentPipe) (
            guarded (consolePath \<noteq> [])
                    (invoke (OpenAndDup consolePath) (console_OpenAndDup w consolePath)) id (
            on_nil (invoke Setsid (system_Setsid w)) (Errorf_s ''setsid '') (
            guarded (consolePath \<noteq> [])
                    (invoke Setctty (system_Setctty w)) (Errorf_s ''setctty '') (
            on_nil (setupNetwork w container context) (Errorf_s ''setup networking '') (
            void LabelInit (
            on_nil (invoke (InitializeMountNamespace rootfs consolePath)
                           (mount_InitializeMountNamespace w rootfs consolePath container))
                   (Errorf_s ''setup mount namespace '') (
            guarded (Hostname container \<noteq> [])
                    (invoke (Sethostname (Hostname container))
                            (system_Sethostname w (Hostname container)))
                    (Errorf_s ''sethostname '') (
            proceed ())))))))) s1)))"

text \<open>
  Lines 149 to 183: the log file, the thread lock, the security profile and labels,
  and the parent death signal. When the log file cannot be opened the source returns
  \<open>nil\<close>.
\<close>

definition Init_secure :: "world \<Rightarrow> Container \<Rightarrow> unit segment" where
  "Init_secure w container s0 =
     (case invoke (OpenFile ''/tmp/nsinit.log'' (O_CREATE OR O_WRONLY OR O_APPEND) mode_0666)
                  (os_OpenFile w ''/tmp/nsinit.log'') s0 of
        (Some err, s1) \<Rightarrow> (Inl (Return None), s1)
      | (None, s1) \<Rightarrow>
          (let profile = index (Context container) ''apparmor_profile'' in
           void LockOSThread (
           on_nil (invoke (ApplyProfile profile) (apparmor_ApplyProfile w profile))
                  (\<lambda>err. Errorf (''set apparmor profile '' @ profile @ '': '' @ Error err)) (
           on_nil (invoke (SetProcessLabel (index (Context container) ''process_label''))
                          (label_SetProcessLabel w (index (Context container) ''process_label'')))
                  (Errorf_s ''set process label '') (
           guarded (index (Context container) ''restrictions'' \<noteq> [])
                   (invoke (Restrict ''sys'') (restrict_Restrict w ''sys'')) id (
           on_ok (invoke_v GetParentDeathSignal (captured_ParentDeathSignal w))
                 (Errorf_s ''get parent death signal '') (\<lambda>pdeathSignal.
           on_nil (RestoreParentDeathSignal w pdeathSignal)
                  (Errorf_s ''restore parent death signal '') (
           proceed ())))))) s1))"

text \<open>
  Lines 185 to 215: securebits, the switch to the host identity, the nested pipe and
  the clone, whose result \<open>pid\<close> the segment hands on.
\<close>

definition Init_escalate :: "world \<Rightarrow> int segment" where
  "Init_escalate w =
     (let securebits = uintptr (secbit_keep_caps OR secbit_no_setuid_fixup);
          flags = uintptr (CLONE_NEWUSER OR CLONE_FILES OR SIGCHLD) in
      on_nil (invoke (Prctl PR_SET_SECUREBITS securebits 0 0 0)
                     (system_Prctl w PR_SET_SECUREBITS securebits)) (Errorf_s ''prctl '') (
      on_nil (invoke (Setuid dockerRootUid) (system_Setuid w dockerRootUid))
             (Errorf_s ''setuid '') (
      on_nil (invoke (Setgid dockerRootGid) (system_Setgid w dockerRootGid))
             (Errorf_s ''setgid '') (
      on_nil (invoke NewSyncPipe (nsinit_NewSyncPipe w)) id (
      on_ok (invoke_v (Clone flags) (system_Clone w flags)) (Errorf_s ''userns clone: '')
        proceed)))))"

text \<open>Lines 217 to 239, the branch \<open>if pid != 0 { ... }\<close>: the escalating parent.\<close>

definition Init_parent :: "world \<Rightarrow> int \<Rightarrow> proc_state \<Rightarrow> outcome \<times> proc_state" where
  "Init_parent w pid s0 =
     (let s1 = issue (Println ''In parent.'') s0 in
      case invoke (FindProcess pid) (os_FindProcess w pid) s1 of
        (Some err, s2) \<Rightarrow> (Return (Some err), s2)
      | (None, s2) \<Rightarrow>
          (let mappings = ''0 '' @ Sprint_int dockerRootUid @ '' 1'' in
           case writeUserMappings w pid mappings s2 of
             (Some err, s3) \<Rightarrow>
               (Return (Some (Errorf_s ''Failed to write mappings: '' err)),
                issue (ProcessKill pid) s3)
           | (None, s3) \<Rightarrow>
               (let s4 = issue (Close NestedPipe) s3 in
                case invoke_v (ProcessWait pid) (proc_Wait w pid) s4 of
                  (Inl err, s5) \<Rightarrow>
                    (Return (Some (Errorf_s ''wait: '' err)), issue (ProcessKill pid) s5)
                | (Inr state, s5) \<Rightarrow> (Exited (ExitStatus state), s5))))"

text \<open>
  Lines 241 to 245: the nested child. \<open>args[0]\<close> panics on an empty argument list;
  \<open>syscall.Exec\<close> returns only when it fails.
\<close>

definition Init_child ::
  "world \<Rightarrow> Container \<Rightarrow> string list \<Rightarrow> proc_state \<Rightarrow> outcome \<times> proc_state" where
  "Init_child w container args s0 =
     (let s1 = issue (Println ''In child.'') s0;
          s2 = issue (Close NestedPipe) s1 in
      case args of
        [] \<Rightarrow> (Panic, s2)
      | arg0 # _ \<Rightarrow>
          (case invoke (Exec arg0 args (Env container))
                       (syscall_Exec w arg0 args (Env container)) s2 of
             (Some err, s3) \<Rightarrow> (Return (Some err), s3)
           | (None, s3) \<Rightarrow> (Execed arg0 args (Env container), s3)))"

text \<open>\<open>Init\<close>, from its first line to its last.\<close>

definition Init ::
  "world \<Rightarrow> Container \<Rightarrow> string \<Rightarrow> string \<Rightarrow> string list \<Rightarrow> proc_state \<Rightarrow>
   outcome \<times> proc_state" where
  "Init w container uncleanRootfs consolePath args =
     and_then (Init_setup w container uncleanRootfs consolePath) (\<lambda>_.
     and_then (Init_secure w container) (\<lambda>_.
     and_then (Init_escalate w) (\<lambda>pid.
       if pid \<noteq> 0 then Init_parent w pid else Init_child w container args)))"

text \<open>A process that has issued no call yet, with the environment it inherited.\<close>

definition start :: "(string \<rightharpoonup> string) \<Rightarrow> proc_state" where
  "start env = \<lparr>environ = env, calls = []\<rparr>"

section \<open>Vocabulary for the properties\<close>

subsection \<open>Environment entries\<close>

text \<open>
  The two halves of an entry around its first \<open>=\<close>, the error the source formats for
  an entry without one, and what it means for an entry to be applied: it has an \<open>=\<close>
  and \<open>os.Setenv\<close> accepts its halves.
\<close>

definition key_of :: "string \<Rightarrow> string" where
  "key_of pair = takeWhile (\<lambda>c. c \<noteq> CHR ''='') pair"

definition val_of :: "string \<Rightarrow> string" where
  "val_of pair = tl (dropWhile (\<lambda>c. c \<noteq> CHR ''='') pair)"

definition invalid_environment :: "string \<Rightarrow> error" where
  "invalid_environment pair = Errorf (''invalid environment '' @ [CHR 0x27] @ pair @ [CHR 0x27])"

definition applies :: "world \<Rightarrow> string \<Rightarrow> bool" where
  "applies w pair \<longleftrightarrow> CHR ''='' \<in> set pair \<and> os_Setenv w (key_of pair) (val_of pair) = None"

definition bind_pair :: "string \<Rightarrow> (string \<rightharpoonup> string) \<Rightarrow> (string \<rightharpoonup> string)" where
  "bind_pair pair env = env(key_of pair \<mapsto> val_of pair)"

definition Setenv_of :: "string \<Rightarrow> call" where
  "Setenv_of pair = Setenv (key_of pair) (val_of pair)"

text \<open>
  The result and the calls of the loop of \<open>LoadContainerEnvironment\<close> in closed form:
  the entries are applied up to the first one that is not, and that one decides the
  result.
\<close>

definition env_result :: "world \<Rightarrow> string list \<Rightarrow> error option" where
  "env_result w ps =
     (case dropWhile (applies w) ps of
        [] \<Rightarrow> None
      | p # _ \<Rightarrow>
          if CHR ''='' \<in> set p then map_option External (os_Setenv w (key_of p) (val_of p))
          else Some (invalid_environment p))"

definition env_log :: "world \<Rightarrow> string list \<Rightarrow> call list" where
  "env_log w ps =
     map Setenv_of (takeWhile (applies w) ps) @
     (case dropWhile (applies w) ps of
        [] \<Rightarrow> []
      | p # _ \<Rightarrow> if CHR ''='' \<in> set p then [Setenv_of p] else [])"

subsection \<open>The call log\<close>

text \<open>The calls a function adds to the log.\<close>

definition new_calls :: "proc_state \<Rightarrow> proc_state \<Rightarrow> call list" where
  "new_calls s s' = drop (length (calls s)) (calls s')"

text \<open>
  Where in \<open>Init\<close> a call is issued: 0 before the network dispatch, 1 in the
  dispatch, 2 for labels, mount namespace and host name, 3 for the log file, the
  security profile and the parent death signal, 4 for securebits, identity switch, nested
  pipe and clone, 5 in the escalating parent and the nested child.
\<close>

fun stage :: "call \<Rightarrow> nat" where
  "stage (ResolveRootfs _) = 0"
| "stage Clearenv = 0"
| "stage (Setenv _ _) = 0"
| "stage ReadFromParent = 0"
| "stage (Close ParentPipe) = 0"
| "stage (OpenAndDup _) = 0"
| "stage Setsid = 0"
| "stage Setctty = 0"
| "stage (GetStrategy _) = 1"
| "stage (Initialize _ _ _) = 1"
| "stage LabelInit = 2"
| "stage (InitializeMountNamespace _ _) = 2"
| "stage (Sethostname _) = 2"
| "stage (OpenFile _ _ _) = 3"
| "stage LockOSThread = 3"
| "stage (ApplyProfile _) = 3"
| "stage (SetProcessLabel _) = 3"
| "stage (Restrict _) = 3"
| "stage GetParentDeathSignal = 3"
| "stage (ParentDeathSignal _) = 3"
| "stage Getppid = 3"
| "stage Getpid = 3"
| "stage (Kill _ _) = 3"
| "stage (Prctl _ _ _ _ _) = 4"
| "stage (Setuid _) = 4"
| "stage (Setgid _) = 4"
| "stage NewSyncPipe = 4"
| "stage (Clone _) = 4"
| "stage (Println _) = 5"
| "stage (FindProcess _) = 5"
| "stage (WriteFile _ _ _) = 5"
| "stage (ProcessKill _) = 5"
| "stage (ProcessWait _) = 5"
| "stage (Exec _ _ _) = 5"
| "stage (Close NestedPipe) = 5"

fun is_Initialize :: "call \<Rightarrow> bool" where
  "is_Initialize (Initialize _ _ _) = True"
| "is_Initialize _ = False"

fun is_WriteFile :: "call \<Rightarrow> bool" where
  "is_WriteFile (WriteFile _ _ _) = True"
| "is_WriteFile _ = False"

fun is_escalation :: "call \<Rightarrow> bool" where
  "is_escalation (Prctl _ _ _ _ _) = True"
| "is_escalation (Setuid _) = True"
| "is_escalation (Setgid _) = True"
| "is_escalation NewSyncPipe = True"
| "is_escalation (Clone _) = True"
| "is_escalation _ = False"

text \<open>
  The invocation an endpoint is due: its resolved strategy, called with the endpoint
  and the handshake payload; none when its type is not registered.
\<close>

definition Initialize_of :: "world \<Rightarrow> Context \<Rightarrow> Network \<Rightarrow> call option" where
  "Initialize_of w context config =
     (case network_GetStrategy w (Type config) of
        Inl _ \<Rightarrow> None
      | Inr strategy \<Rightarrow> Some (Initialize strategy config context))"

text \<open>The particular calls of the escalation and of the escalating parent.\<close>

definition securebits_call :: call where
  "securebits_call =
     Prctl PR_SET_SECUREBITS (uintptr (secbit_keep_caps OR secbit_no_setuid_fixup)) 0 0 0"

definition clone_flags :: "64 word" where
  "clone_flags = uintptr (CLONE_NEWUSER OR CLONE_FILES OR SIGCHLD)"

definition mapping_line :: string where
  "mapping_line = ''0 '' @ Sprint_int dockerRootUid @ '' 1''"

definition write_uid_map :: "int \<Rightarrow> call" where
  "write_uid_map pid = WriteFile (uid_map_path pid) mapping_line mode_0644"

definition write_gid_map :: "int \<Rightarrow> call" where
  "write_gid_map pid = WriteFile (gid_map_path pid) mapping_line mode_0644"

subsection \<open>What each segment of \<open>Init\<close> may log\<close>

text \<open>
  The result and the calls of \<open>setupNetwork\<close>, read off a run from an empty log, and
  the facts about them that the properties below need.
\<close>

definition net_result :: "world \<Rightarrow> Context \<Rightarrow> Network list \<Rightarrow> error option" where
  "net_result w context ns = fst (setupNetwork_loop w ns context (start Map.empty))"

definition net_calls :: "world \<Rightarrow> Context \<Rightarrow> Network list \<Rightarrow> call list" where
  "net_calls w context ns = calls (snd (setupNetwork_loop w ns context (start Map.empty)))"

definition net_log :: "world \<Rightarrow> Network list \<Rightarrow> Context \<Rightarrow> error option \<Rightarrow> call list \<Rightarrow> bool" where
  "net_log w ns context r X \<longleftrightarrow>
     (\<forall>x\<in>set X. stage x = 1) \<and>
     prefix (map Some (filter is_Initialize X)) (map (Initialize_of w context) ns) \<and>
     (r = None \<longrightarrow> map Some (filter is_Initialize X) = map (Initialize_of w context) ns) \<and>
     ((\<exists>n\<in>set ns. \<exists>m. network_GetStrategy w (Type n) = Inl m) \<longrightarrow> r \<noteq> None) \<and>
     (\<forall>t. X \<noteq> [] \<and> last X = GetStrategy t \<longrightarrow>
        (\<exists>m. network_GetStrategy w t = Inl m \<and> r = Some (External m)))"

definition setup_log :: "world \<Rightarrow> Container \<Rightarrow> outcome + unit \<Rightarrow> call list \<Rightarrow> bool" where
  "setup_log w c r X \<longleftrightarrow>
     (\<forall>x\<in>set X. stage x \<le> 2) \<and>
     (r = Inr () \<or> (\<exists>e. r = Inl (Return (Some e)))) \<and>
     (r = Inr () \<longrightarrow> LabelInit \<in> set X) \<and>
     (\<forall>context. syncPipe_ReadFromParent w = Inr context \<longrightarrow>
        prefix (map Some (filter is_Initialize X)) (map (Initialize_of w context) (Networks c)) \<and>
        (LabelInit \<in> set X \<longrightarrow>
           map Some (filter is_Initialize X) = map (Initialize_of w context) (Networks c))) \<and>
     ((\<exists>n\<in>set (Networks c). \<exists>m. network_GetStrategy w (Type n) = Inl m) \<longrightarrow>
        (\<forall>x\<in>set X. stage x \<le> 1)) \<and>
     (\<forall>t. X \<noteq> [] \<and> last X = GetStrategy t \<longrightarrow>
        (\<exists>m. network_GetStrategy w t = Inl m \<and>
             r = Inl (Return (Some (Errorf (''setup networking '' @ m))))))"

definition secure_log :: "outcome + unit \<Rightarrow> call list \<Rightarrow> bool" where
  "secure_log r X \<longleftrightarrow>
     (\<forall>x\<in>set X. stage x = 3) \<and>
     (r = Inr () \<or> r = Inl (Return None) \<or> (\<exists>e. r = Inl (Return (Some e))))"

definition escalate_log :: "world \<Rightarrow> outcome + int \<Rightarrow> call list \<Rightarrow> bool" where
  "escalate_log w r X \<longleftrightarrow>
     (X = [securebits_call] \<and>
        (\<exists>m. r = Inl (Return (Some (Errorf (''prctl '' @ m)))))) \<or>
     (X = [securebits_call, Setuid dockerRootUid] \<and>
        (\<exists>m. system_Setuid w dockerRootUid = Some m \<and>
             r = Inl (Return (Some (Errorf (''setuid '' @ m)))))) \<or>
     (X = [securebits_call, Setuid dockerRootUid, Setgid dockerRootGid] \<and>
        system_Setuid w dockerRootUid = None \<and>
        (\<exists>m. system_Setgid w dockerRootGid = Some m \<and>
             r = Inl (Return (Some (Errorf (''setgid '' @ m)))))) \<or>
     (X = [securebits_call, Setuid dockerRootUid, Setgid dockerRootGid, NewSyncPipe] \<and>
        system_Setuid w dockerRootUid = None \<and> system_Setgid w dockerRootGid = None \<and>
        (\<exists>e. r = Inl (Return (Some e)))) \<or>
     (X = [securebits_call, Setuid dockerRootUid, Setgid dockerRootGid, NewSyncPipe,
           Clone clone_flags] \<and>
        system_Setuid w dockerRootUid = None \<and> system_Setgid w dockerRootGid = None \<and>
        ((\<exists>e. r = Inl (Return (Some e)) \<and> (\<exists>m. system_Clone w clone_flags = Inl m)) \<or>
         (\<exists>pid. r = Inr pid \<and> system_Clone w clone_flags = Inr pid)))"

definition parent_log :: "world \<Rightarrow> int \<Rightarrow> outcome \<Rightarrow> call list \<Rightarrow> bool" where
  "parent_log w pid out X \<longleftrightarrow>
     (X = [Println ''In parent.'', FindProcess pid] \<and>
        (\<exists>m. os_FindProcess w pid = Some m \<and> out = Return (Some (External m)))) \<or>
     (X = [Println ''In parent.'', FindProcess pid, write_uid_map pid, ProcessKill pid] \<and>
        os_FindProcess w pid = None \<and>
        (\<exists>m. ioutil_WriteFile w (uid_map_path pid) mapping_line mode_0644 = Some m \<and>
             out = Return (Some (Errorf (''Failed to write mappings: '' @ m))))) \<or>
     (X = [Println ''In parent.'', FindProcess pid, write_uid_map pid, write_gid_map pid,
           ProcessKill pid] \<and>
        os_FindProcess w pid = None \<and>
        ioutil_WriteFile w (uid_map_path pid) mapping_line mode_0644 = None \<and>
        (\<exists>m. ioutil_WriteFile w (gid_map_path pid) mapping_line mode_0644 = Some m \<and>
             out = Return (Some (Errorf (''Failed to write mappings: '' @ m))))) \<or>
     (X = [Println ''In parent.'', FindProcess pid, write_uid_map pid, write_gid_map pid,
           Close NestedPipe, ProcessWait pid, ProcessKill pid] \<and>
        os_FindProcess w pid = None \<and>
        ioutil_WriteFile w (uid_map_path pid) mapping_line mode_0644 = None \<and>
        ioutil_WriteFile w (gid_map_path pid) mapping_line mode_0644 = None \<and>
        (\<exists>m. proc_Wait w pid = Inl m \<and> out = Return (Some (Errorf (''wait: '' @ m))))) \<or>
     (X = [Println ''In parent.'', FindProcess pid, write_uid_map pid, write_gid_map pid,
           Close NestedPipe, ProcessWait pid] \<and>
        os_FindProcess w pid = None \<and>
        ioutil_WriteFile w (uid_map_path pid) mapping_line mode_0644 = None \<and>
        ioutil_WriteFile w (gid_map_path pid) mapping_line mode_0644 = None \<and>
        (\<exists>ws. proc_Wait w pid = Inr ws \<and> out = Exited (ExitStatus ws)))"

definition child_log :: "Container \<Rightarrow> string list \<Rightarrow> call list \<Rightarrow> bool" where
  "child_log c args X \<longleftrightarrow>
     X = [Println ''In child.'', Close NestedPipe] \<or>
     X = [Println ''In child.'', Close NestedPipe, Exec (hd args) args (Env c)]"

subsection \<open>Example worlds and containers\<close>

text \<open>
  A world in which every call succeeds: the only registered network type is \<open>veth\<close>,
  \<open>os.Setenv\<close> rejects the empty key, the parent death signal was 15 and has been
  cleared, the parent process is alive, the clone returns the child 4242, and the child
  exits with status 42.
\<close>

definition veth0 :: Network where
  "veth0 = \<lparr>Type = ''veth'', Address = ''10.0.0.2/24'', Gateway = ''10.0.0.1'', Mtu = 1500\<rparr>"

definition macvlan0 :: Network where
  "macvlan0 = \<lparr>Type = ''macvlan'', Address = ''10.0.0.3/24'', Gateway = ''10.0.0.1'', Mtu = 1500\<rparr>"

definition box :: Container where
  "box = \<lparr>Hostname = ''box'', Env = [''PATH=/bin'', ''HOME=/root''], Networks = [veth0],
          Context = Map.empty\<rparr>"

definition calm :: world where
  "calm = \<lparr>
     utils_ResolveRootfs = Inr,
     os_Setenv = (\<lambda>key val. if key = [] then Some ''invalid argument'' else None),
     syncPipe_ReadFromParent = Inr Map.empty,
     console_OpenAndDup = (\<lambda>_. None),
     system_Setsid = None,
     system_Setctty = None,
     network_GetStrategy =
       (\<lambda>t. if t = ''veth'' then Inr ''veth'' else Inl ''unknown network type''),
     strategy_Initialize = (\<lambda>_ _ _. None),
     mount_InitializeMountNamespace = (\<lambda>_ _ _. None),
     system_Sethostname = (\<lambda>_. None),
     os_OpenFile = (\<lambda>_. None),
     apparmor_ApplyProfile = (\<lambda>_. None),
     label_SetProcessLabel = (\<lambda>_. None),
     restrict_Restrict = (\<lambda>_. None),
     captured_ParentDeathSignal = Inr 15,
     current_ParentDeathSignal = Inr 0,
     system_ParentDeathSignal = (\<lambda>_. None),
     syscall_Getppid = 100,
     syscall_Getpid = 7,
     syscall_Kill = (\<lambda>_ _. None),
     system_Prctl = (\<lambda>_ _. None),
     system_Setuid = (\<lambda>_. None),
     system_Setgid = (\<lambda>_. None),
     nsinit_NewSyncPipe = None,
     system_Clone = (\<lambda>_. Inr 4242),
     os_FindProcess = (\<lambda>_. None),
     ioutil_WriteFile = (\<lambda>_ _ _. None),
     proc_Wait = (\<lambda>_. Inr 0x2A00),
     syscall_Exec = (\<lambda>_ _ _. None)\<rparr>"

text \<open>Worlds in which one call fails, and containers with a malformed environment.\<close>

definition orphaned :: world where
  "orphaned = calm\<lparr>syscall_Getppid := 1\<rparr>"

definition uid_denied :: world where
  "uid_denied = calm\<lparr>ioutil_WriteFile :=
     (\<lambda>p d m. if p = uid_map_path 4242 then Some ''permission denied'' else None)\<rparr>"

definition no_log_file :: world where
  "no_log_file = calm\<lparr>os_OpenFile := (\<lambda>_. Some ''read-only file system'')\<rparr>"

definition setuid_denied :: world where
  "setuid_denied = calm\<lparr>system_Setuid := (\<lambda>_. Some ''operation not permitted'')\<rparr>"

definition setgid_denied :: world where
  "setgid_denied = calm\<lparr>system_Setgid := (\<lambda>_. Some ''operation not permitted'')\<rparr>"

definition path_bad_home :: Container where
  "path_bad_home = box\<lparr>Env := [''PATH=/bin'', ''BAD'', ''HOME=/root'']\<rparr>"

definition nokey_bad :: Container where
  "nokey_bad = box\<lparr>Env := [''=x'', ''BAD'']\<rparr>"

definition two_networks :: Container where
  "two_networks = box\<lparr>Networks := [veth0, macvlan0]\<rparr>"

definition inherited :: "string \<rightharpoonup> string" where
  "inherited = [''OLD'' \<mapsto> ''1'']"

section \<open>Lemmas\<close>

subsection \<open>The log, the segments and the loops in closed form\<close>

lemma calls_issue [simp]: "calls (issue c s) = calls s @ [c]"
  by (simp add: issue_def)

lemma environ_issue [simp]: "environ (issue c s) = environ s"
  by (simp add: issue_def)

lemma map_sum_External [simp]:
  "map_sum External id r = Inr v \<longleftrightarrow> r = Inr v"
  "map_sum External id r = Inl e \<longleftrightarrow> (\<exists>m. r = Inl m \<and> e = External m)"
  by (cases r; auto)+

lemmas run = invoke_def invoke_v_def ask_def

lemmas segs = on_ok_def on_nil_def guarded_def void_def proceed_def

lemma split_has: "CHR ''='' \<in> set pair \<Longrightarrow> SplitN_eq_2 pair = [key_of pair, val_of pair]"
  by (simp add: SplitN_eq_2_def key_of_def val_of_def)

lemma split_hasnt: "CHR ''='' \<notin> set pair \<Longrightarrow> SplitN_eq_2 pair = [pair]"
  by (simp add: SplitN_eq_2_def)

lemma pair_decomp:
  "CHR ''='' \<in> set pair \<Longrightarrow>
   pair = key_of pair @ CHR ''='' # val_of pair \<and> CHR ''='' \<notin> set (key_of pair)"
  unfolding key_of_def val_of_def
  by (induction pair) auto

lemma set_pairs_bad:
  "CHR ''='' \<notin> set pair \<Longrightarrow> set_pairs w (pair # rest) s = (Some (invalid_environment pair), s)"
  by (simp add: split_hasnt invalid_environment_def)

lemma set_pairs_fail:
  "CHR ''='' \<in> set pair \<Longrightarrow> os_Setenv w (key_of pair) (val_of pair) = Some m \<Longrightarrow>
   set_pairs w (pair # rest) s = (Some (External m), issue (Setenv_of pair) s)"
  by (simp add: split_has Setenv_call_def Setenv_of_def)

lemma set_pairs_ok:
  "applies w pair \<Longrightarrow>
   set_pairs w (pair # rest) s =
     set_pairs w rest (issue (Setenv_of pair) (s\<lparr>environ := bind_pair pair (environ s)\<rparr>))"
  by (simp add: applies_def split_has Setenv_call_def Setenv_of_def bind_pair_def)

lemma set_pairs_closed:
  "set_pairs w ps s =
     (env_result w ps,
      s\<lparr>environ := fold bind_pair (takeWhile (applies w) ps) (environ s),
        calls := calls s @ env_log w ps\<rparr>)"
proof (induction ps arbitrary: s)
  case Nil
  then show ?case by (simp add: env_result_def env_log_def)
next
  case (Cons p ps)
  show ?case
  proof (cases "applies w p")
    case True
    then show ?thesis
      by (simp only: set_pairs_ok Cons.IH) (simp add: issue_def env_result_def env_log_def)
  next
    case False
    show ?thesis
    proof (cases "CHR ''='' \<in> set p")
      case True
      with False obtain m where "os_Setenv w (key_of p) (val_of p) = Some m"
        by (auto simp: applies_def)
      with True False show ?thesis
        by (simp add: set_pairs_fail issue_def env_result_def env_log_def del: set_pairs.simps)
    next
      case False
      then have "\<not> applies w p" by (simp add: applies_def)
      with False show ?thesis
        by (simp add: set_pairs_bad env_result_def env_log_def del: set_pairs.simps)
    qed
  qed
qed

lemma LoadContainerEnvironment_closed:
  "LoadContainerEnvironment w c s =
     (env_result w (Env c),
      s\<lparr>environ := fold bind_pair (takeWhile (applies w) (Env c)) Map.empty,
        calls := calls s @ Clearenv # env_log w (Env c)\<rparr>)"
  by (simp add: LoadContainerEnvironment_def Clearenv_call_def set_pairs_closed issue_def)

lemma stage_env_log: "x \<in> set (env_log w ps) \<Longrightarrow> stage x = 0"
  by (auto simp: env_log_def Setenv_of_def split: list.splits if_splits)

lemma setupNetwork_loop_indep:
  "setupNetwork_loop w ns context s =
     (net_result w context ns, s\<lparr>calls := calls s @ net_calls w context ns\<rparr>)"
proof -
  have "\<exists>r X. \<forall>t. setupNetwork_loop w ns context t = (r, t\<lparr>calls := calls t @ X\<rparr>)"
  proof (induction ns)
    case Nil
    have "\<forall>t. setupNetwork_loop w [] context t = (None, t\<lparr>calls := calls t @ []\<rparr>)"
      by simp
    then show ?case by blast
  next
    case (Cons n ns)
    then obtain r X where
      IH: "\<And>t. setupNetwork_loop w ns context t = (r, t\<lparr>calls := calls t @ X\<rparr>)"
      by blast
    show ?case
    proof (cases "network_GetStrategy w (Type n)")
      case (Inl m)
      then have "\<forall>t. setupNetwork_loop w (n # ns) context t =
          (Some (External m), t\<lparr>calls := calls t @ [GetStrategy (Type n)]\<rparr>)"
        by (simp add: run issue_def)
      then show ?thesis by blast
    next
      case (Inr st)
      show ?thesis
      proof (cases "strategy_Initialize w st n context")
        case None
        with Inr have "\<forall>t. setupNetwork_loop w (n # ns) context t =
            (r, t\<lparr>calls := calls t @ GetStrategy (Type n) # Initialize st n context # X\<rparr>)"
          by (simp add: run issue_def IH)
        then show ?thesis by blast
      next
        case (Some m)
        with Inr have "\<forall>t. setupNetwork_loop w (n # ns) context t =
            (Some (External m),
             t\<lparr>calls := calls t @ [GetStrategy (Type n), Initialize st n context]\<rparr>)"
          by (simp add: run issue_def)
        then show ?thesis by blast
      qed
    qed
  qed
  then obtain r X where
    *: "\<And>t. setupNetwork_loop w ns context t = (r, t\<lparr>calls := calls t @ X\<rparr>)"
    by blast
  show ?thesis
    by (simp add: net_result_def net_calls_def * start_def)
qed

lemma setupNetwork_loop_log:
  "setupNetwork_loop w ns context s = (r, s') \<Longrightarrow>
   \<exists>X. calls s' = calls s @ X \<and> net_log w ns context r X"
proof (induction ns arbitrary: s)
  case Nil
  then show ?case by (simp add: net_log_def)
next
  case (Cons n ns)
  show ?case
  proof (cases "network_GetStrategy w (Type n)")
    case (Inl m)
    with Cons.prems show ?thesis
      by (auto simp: run net_log_def)
  next
    case (Inr st)
    note st = this
    show ?thesis
    proof (cases "strategy_Initialize w st n context")
      case (Some m)
      with st Cons.prems show ?thesis
        by (auto simp: run net_log_def Initialize_of_def)
    next
      case None
      with st Cons.prems have "setupNetwork_loop w ns context
          (issue (Initialize st n context) (issue (GetStrategy (Type n)) s)) = (r, s')"
        by (simp add: run)
      from Cons.IH [OF this] obtain X where
        X: "calls s' = calls s @ GetStrategy (Type n) # Initialize st n context # X"
           "net_log w ns context r X"
        by auto
      from X(2) st have "net_log w (n # ns) context r (GetStrategy (Type n) # Initialize st n context # X)"
        by (auto simp: net_log_def Initialize_of_def)
      with X(1) show ?thesis by auto
    qed
  qed
qed

lemma net_log_net_calls: "net_log w ns ctx (net_result w ctx ns) (net_calls w ctx ns)"
proof -
  obtain r s' where eq: "setupNetwork_loop w ns ctx (start Map.empty) = (r, s')"
    by (cases "setupNetwork_loop w ns ctx (start Map.empty)")
  from setupNetwork_loop_log [OF eq] eq show ?thesis
    by (simp add: net_result_def net_calls_def start_def)
qed

lemma setupNetwork_closed:
  "setupNetwork w c context s =
     (net_result w context (Networks c), s\<lparr>calls := calls s @ net_calls w context (Networks c)\<rparr>)"
  by (simp add: setupNetwork_def setupNetwork_loop_indep)

lemma is_Initialize_stage: "is_Initialize x \<Longrightarrow> stage x = 1"
  by (cases x) simp_all

lemma env_log_facts [simp]:
  "filter is_Initialize (env_log w ps) = []"
  "LabelInit \<notin> set (env_log w ps)"
  "\<forall>x\<in>set (env_log w ps). stage x \<le> n"
  "env_log w ps \<noteq> [] \<Longrightarrow> last (env_log w ps) \<noteq> GetStrategy t"
proof -
  show "filter is_Initialize (env_log w ps) = []"
    by (auto simp: filter_empty_conv dest!: stage_env_log is_Initialize_stage)
  show "LabelInit \<notin> set (env_log w ps)"
    by (auto dest!: stage_env_log)
  show "\<forall>x\<in>set (env_log w ps). stage x \<le> n"
    by (auto dest!: stage_env_log)
  show "last (env_log w ps) \<noteq> GetStrategy t" if "env_log w ps \<noteq> []"
    using last_in_set [OF that] by (auto dest!: stage_env_log)
qed

lemma net_calls_facts:
  "\<forall>x\<in>set (net_calls w ctx ns). stage x = 1"
  "prefix (map Some (filter is_Initialize (net_calls w ctx ns))) (map (Initialize_of w ctx) ns)"
  "net_result w ctx ns = None \<Longrightarrow>
     map Some (filter is_Initialize (net_calls w ctx ns)) = map (Initialize_of w ctx) ns"
  "n \<in> set ns \<Longrightarrow> network_GetStrategy w (Type n) = Inl m \<Longrightarrow> net_result w ctx ns \<noteq> None"
  "net_calls w ctx ns \<noteq> [] \<Longrightarrow> last (net_calls w ctx ns) = GetStrategy t \<Longrightarrow>
     \<exists>m. network_GetStrategy w t = Inl m \<and> net_result w ctx ns = Some (External m)"
  using net_log_net_calls [of w ns ctx] unfolding net_log_def by blast+

lemma net_last:
  assumes "net_calls w ctx ns \<noteq> []" "last (net_calls w ctx ns) = GetStrategy t"
  shows "net_result w ctx ns = Some e \<Longrightarrow> network_GetStrategy w t = Inl (Error e)"
    and "net_result w ctx ns \<noteq> None"
  using net_calls_facts(5) [OF assms] by auto

lemma net_calls_simps [simp]:
  "LabelInit \<notin> set (net_calls w ctx ns)"
  "\<forall>x\<in>set (net_calls w ctx ns). stage x \<le> Suc n"
  using net_calls_facts(1) [of w ctx ns] by auto

lemma Init_setup_log:
  assumes "Init_setup w c ur cp s = (r, s1)"
  shows "\<exists>X. calls s1 = calls s @ X \<and> setup_log w c r X"
  using assms unfolding Init_setup_def segs run LoadContainerEnvironment_closed setupNetwork_closed
  apply (simp split: prod.splits sum.splits option.splits if_splits)
  apply (auto simp: setup_log_def Errorf_s_def net_calls_facts net_last)
  done

lemma Restore_log:
  "RestoreParentDeathSignal w old s = (r, s') \<Longrightarrow>
   \<exists>X. calls s' = calls s @ X \<and> (\<forall>x\<in>set X. stage x = 3)"
  by (auto simp: RestoreParentDeathSignal_def run split: if_splits sum.splits option.splits)

lemma Init_secure_log:
  assumes "Init_secure w c s = (r, s1)"
  shows "\<exists>X. calls s1 = calls s @ X \<and> secure_log r X"
  using assms unfolding Init_secure_def segs run Let_def
  apply (simp split: prod.splits sum.splits option.splits if_splits)
  apply (auto simp: secure_log_def dest!: Restore_log)
  done

lemma Init_escalate_log:
  assumes "Init_escalate w s = (r, s1)"
  shows "\<exists>X. calls s1 = calls s @ X \<and> escalate_log w r X"
  using assms unfolding Init_escalate_def segs run Let_def
  by (auto simp: escalate_log_def securebits_call_def clone_flags_def Errorf_s_def
           split: prod.splits sum.splits option.splits if_splits)

lemma writeUserMappings_closed:
  "writeUserMappings w pid mappings s =
    (case ioutil_WriteFile w (uid_map_path pid) mappings mode_0644 of
       Some m \<Rightarrow> (Some (External m), issue (WriteFile (uid_map_path pid) mappings mode_0644) s)
     | None \<Rightarrow>
        (map_option External (ioutil_WriteFile w (gid_map_path pid) mappings mode_0644),
         issue (WriteFile (gid_map_path pid) mappings mode_0644)
           (issue (WriteFile (uid_map_path pid) mappings mode_0644) s)))"
  by (simp add: writeUserMappings_def run split: option.splits)

lemma Init_parent_log:
  assumes "Init_parent w pid s = (out, s')"
  shows "\<exists>X. calls s' = calls s @ X \<and> parent_log w pid out X"
  using assms unfolding Init_parent_def run Let_def writeUserMappings_closed
  by (auto simp: parent_log_def write_uid_map_def write_gid_map_def mapping_line_def Errorf_s_def
           split: prod.splits sum.splits option.splits if_splits)

lemma Init_child_log:
  assumes "Init_child w c args s = (out, s')"
  shows "\<exists>X. calls s' = calls s @ X \<and> child_log c args X"
  using assms unfolding Init_child_def run Let_def
  by (auto simp: child_log_def split: prod.splits list.splits option.splits)

lemma Init_cases [consumes 1, case_names in_setup in_secure in_escalate in_parent in_child]:
  assumes "Init w c ur cp args s = (out, s')"
  obtains
    (in_setup) XA where "calls s' = calls s @ XA" "setup_log w c (Inl out) XA"
  | (in_secure) XA XB where "calls s' = calls s @ XA @ XB"
      "setup_log w c (Inr ()) XA" "secure_log (Inl out) XB"
  | (in_escalate) XA XB XC where "calls s' = calls s @ XA @ XB @ XC"
      "setup_log w c (Inr ()) XA" "secure_log (Inr ()) XB" "escalate_log w (Inl out) XC"
  | (in_parent) XA XB XC XD pid where "calls s' = calls s @ XA @ XB @ XC @ XD"
      "setup_log w c (Inr ()) XA" "secure_log (Inr ()) XB" "escalate_log w (Inr pid) XC" "pid \<noteq> 0"
      "parent_log w pid out XD"
  | (in_child) XA XB XC XD where "calls s' = calls s @ XA @ XB @ XC @ XD"
      "setup_log w c (Inr ()) XA" "secure_log (Inr ()) XB" "escalate_log w (Inr 0) XC" "child_log c args XD"
proof -
  obtain rA sA where A: "Init_setup w c ur cp s = (rA, sA)"
    by (cases "Init_setup w c ur cp s")
  from Init_setup_log [OF A] obtain XA where
    XA: "calls sA = calls s @ XA" "setup_log w c rA XA" by blast
  show thesis
  proof (cases rA)
    case (Inl o1)
    with A assms have "out = o1" "s' = sA" by (simp_all add: Init_def and_then_def)
    with XA Inl show thesis by (auto intro: in_setup)
  next
    case (Inr u)
    obtain rB sB where B: "Init_secure w c sA = (rB, sB)"
      by (cases "Init_secure w c sA")
    from Init_secure_log [OF B] obtain XB where
      XB: "calls sB = calls sA @ XB" "secure_log rB XB" by blast
    show thesis
    proof (cases rB)
      case (Inl o2)
      with A B Inr assms have "out = o2" "s' = sB" by (simp_all add: Init_def and_then_def)
      with XA XB Inl Inr show thesis by (auto intro: in_secure)
    next
      case Inr2: (Inr u2)
      obtain rC sC where C: "Init_escalate w sB = (rC, sC)"
        by (cases "Init_escalate w sB")
      from Init_escalate_log [OF C] obtain XC where
        XC: "calls sC = calls sB @ XC" "escalate_log w rC XC" by blast
      show thesis
      proof (cases rC)
        case (Inl o3)
        with A B C Inr Inr2 assms have "out = o3" "s' = sC"
          by (simp_all add: Init_def and_then_def)
        with XA XB XC Inl Inr Inr2 show thesis by (auto intro: in_escalate)
      next
        case Inr3: (Inr pid)
        show thesis
        proof (cases "pid = 0")
          case False
          with A B C Inr Inr2 Inr3 assms have "Init_parent w pid sC = (out, s')"
            by (simp add: Init_def and_then_def)
          from Init_parent_log [OF this] obtain XD where
            "calls s' = calls sC @ XD" "parent_log w pid out XD" by blast
          with XA XB XC Inr Inr2 Inr3 False show thesis by (auto intro: in_parent)
        next
          case True
          with A B C Inr Inr2 Inr3 assms have "Init_child w c args sC = (out, s')"
            by (simp add: Init_def and_then_def)
          from Init_child_log [OF this] obtain XD where
            "calls s' = calls sC @ XD" "child_log c args XD" by blast
          with XA XB XC Inr Inr2 Inr3 True show thesis by (auto intro: in_child)
        qed
      qed
    qed
  qed
qed

lemmas eval_world =
  calm_def orphaned_def uid_denied_def no_log_file_def setuid_denied_def setgid_denied_def

lemmas eval_box = box_def veth0_def macvlan0_def path_bad_home_def nokey_bad_def two_networks_def

lemma digits_1017: "digits 1017 = ''1017''"
  by (simp add: digits.simps)

lemma mapping_line_eq: "mapping_line = ''0 1017 1''"
  by (simp add: mapping_line_def dockerRootUid_def Sprint_int_def digits_1017)

lemma paths_differ: "uid_map_path pid \<noteq> gid_map_path pid"
  by (simp add: uid_map_path_def gid_map_path_def)

lemma new_calls_append [simp]: "calls s' = calls s @ X \<Longrightarrow> new_calls s s' = X"
  by (simp add: new_calls_def)

lemma Restore_closed:
  "RestoreParentDeathSignal w old s =
    (if old = 0 then (None, s)
     else (case current_ParentDeathSignal w of
       Inl m \<Rightarrow> (Some (Errorf (''get parent death signal '' @ m)), issue GetParentDeathSignal s)
     | Inr current \<Rightarrow>
         (if old = current then (None, issue GetParentDeathSignal s)
          else (case system_ParentDeathSignal w (uintptr old) of
            Some m \<Rightarrow> (Some (Errorf (''set parent death signal '' @ m)),
                       issue (ParentDeathSignal (uintptr old)) (issue GetParentDeathSignal s))
          | None \<Rightarrow>
              (if syscall_Getppid w = 1
               then (map_option External (syscall_Kill w (syscall_Getpid w) old),
                     issue (Kill (syscall_Getpid w) old) (issue Getpid (issue Getppid
                       (issue (ParentDeathSignal (uintptr old)) (issue GetParentDeathSignal s)))))
               else (None, issue Getppid
                       (issue (ParentDeathSignal (uintptr old))
                          (issue GetParentDeathSignal s))))))))"
  by (simp add: RestoreParentDeathSignal_def run Errorf_s_def split: sum.splits option.splits)

subsection \<open>Environment entries\<close>

lemma invalid_environment_inject [simp]:
  "invalid_environment p = invalid_environment q \<longleftrightarrow> p = q"
  by (simp add: invalid_environment_def)

lemma dropWhile_hd_in:
  "dropWhile P xs = y # ys \<Longrightarrow> y \<in> set xs \<and> \<not> P y"
  by (metis dropWhile_eq_Cons_conv in_set_conv_decomp)

lemma env_result_invalid:
  "env_result w ps = Some (invalid_environment p) \<Longrightarrow> p \<in> set ps \<and> CHR ''='' \<notin> set p"
  by (auto simp: env_result_def invalid_environment_def split: list.splits if_splits
           dest: dropWhile_hd_in)

lemma dropWhile_reached:
  "\<forall>x\<in>set pre. P x \<Longrightarrow> \<not> P q \<Longrightarrow> dropWhile P (pre @ q # post) = q # post"
  by (simp add: dropWhile_append)

lemma takeWhile_reached:
  "\<forall>x\<in>set pre. P x \<Longrightarrow> \<not> P q \<Longrightarrow> takeWhile P (pre @ q # post) = pre"
  by (simp add: takeWhile_append)

lemma takeWhile_passed:
  "\<forall>x\<in>set pre. P x \<Longrightarrow> P q \<Longrightarrow> takeWhile P (pre @ q # post) = pre @ q # takeWhile P post"
  by (simp add: takeWhile_append)

lemma env_log_reached:
  assumes "\<forall>x\<in>set pre. applies w x" "CHR ''='' \<in> set q"
  shows "Setenv_of q \<in> set (env_log w (pre @ q # post))"
proof (cases "applies w q")
  case True
  with assms show ?thesis by (simp add: env_log_def takeWhile_passed)
next
  case False
  with assms show ?thesis by (simp add: env_log_def takeWhile_reached dropWhile_reached)
qed

subsection \<open>The wait status of a child that exited\<close>

lemma exited_low_bits: "(push_bit 8 (x :: 32 word)) AND 0x7F = 0"
proof -
  have "(0x7F :: 32 word) = mask 7" by (simp add: mask_eq_exp_minus_1)
  then show ?thesis
    by (simp add: bit_eq_iff bit_simps)
qed

lemma exited_high_bits: "0 \<le> c \<Longrightarrow> c \<le> 255 \<Longrightarrow> uint (drop_bit 8 (push_bit 8 (word_of_int c :: 32 word))) AND 0xFF = c"
proof -
  assume c: "0 \<le> c" "c \<le> 255"
  have m: "(0xFF :: int) = mask 8" by (simp add: mask_eq_exp_minus_1)
  have "drop_bit 8 (push_bit 8 (word_of_int c :: 32 word)) = take_bit 24 (word_of_int c)"
    by (simp add: bit_eq_iff bit_simps) 
  moreover have "uint (take_bit 24 (word_of_int c :: 32 word)) = take_bit 24 c"
    by (simp add: unsigned_take_bit_eq uint_word_of_int_eq min_def)
  moreover from c have "take_bit 24 c = c"
    by (simp add: take_bit_int_eq_self)
  moreover from c have "c AND mask 8 = c"
    by (simp add: take_bit_eq_mask [symmetric] take_bit_int_eq_self)
  ultimately show ?thesis by (simp add: m)
qed

lemma ExitStatus_exited:
  "0 \<le> c \<Longrightarrow> c \<le> 255 \<Longrightarrow> ExitStatus (push_bit 8 (word_of_int c)) = c"
  unfolding ExitStatus_def by (simp only: exited_low_bits exited_high_bits if_False simp_thms)

subsection \<open>Where the calls of a run of \<open>Init\<close> come from\<close>

lemma no_WriteFile_stage: "\<forall>x\<in>set X. stage x \<le> 4 \<Longrightarrow> filter is_WriteFile X = []"
  by (auto simp: filter_empty_conv elim!: is_WriteFile.elims)

lemma no_escalation_stage_low: "\<forall>x\<in>set X. stage x \<le> 3 \<Longrightarrow> filter is_escalation X = []"
  by (auto simp: filter_empty_conv elim!: is_escalation.elims)

lemma no_escalation_stage_high: "\<forall>x\<in>set X. stage x = 5 \<Longrightarrow> filter is_escalation X = []"
  by (auto simp: filter_empty_conv elim!: is_escalation.elims)

lemma setup_log_stage: "setup_log w c r X \<Longrightarrow> \<forall>x\<in>set X. stage x \<le> 2"
  by (simp add: setup_log_def)

lemma secure_log_stage: "secure_log r X \<Longrightarrow> \<forall>x\<in>set X. stage x = 3"
  by (simp add: secure_log_def)

lemma escalate_log_stage: "escalate_log w r X \<Longrightarrow> \<forall>x\<in>set X. stage x = 4"
  by (auto simp: escalate_log_def securebits_call_def)

lemma parent_log_stage: "parent_log w pid out X \<Longrightarrow> \<forall>x\<in>set X. stage x = 5"
  by (auto simp: parent_log_def write_uid_map_def write_gid_map_def)

lemma child_log_stage: "child_log c args X \<Longrightarrow> \<forall>x\<in>set X. stage x = 5"
  by (auto simp: child_log_def)

lemma not_before_clone:
  assumes "\<forall>x\<in>set X. stage x \<le> 4"
  shows "WriteFile p d m \<notin> set X" "ProcessWait q \<notin> set X" "ProcessKill q \<notin> set X"
  using assms by fastforce+

lemma stage_mem: "x \<in> set X \<Longrightarrow> \<forall>y\<in>set X. P (stage y) \<Longrightarrow> P (stage x)"
  by blast

lemma securebits_value:
  "securebits_call = Prctl 28 6 0 0 0"
  by (simp add: securebits_call_def PR_SET_SECUREBITS_def uintptr_def secbit_keep_caps_def
      secbit_no_setuid_fixup_def)

lemma clone_flags_value: "clone_flags = 0x10000411"
  by (simp add: clone_flags_def uintptr_def CLONE_NEWUSER_def CLONE_FILES_def SIGCHLD_def)

lemma mode_values: "mode_0644 = 420" "mode_0666 = 438"
  by (simp_all add: mode_0644_def mode_0666_def)

lemma mapping_line_single: "CHR 0x0A \<notin> set mapping_line"
  by (simp add: mapping_line_eq)

lemma is_escalation_stage: "is_escalation x \<longleftrightarrow> stage x = 4"
  by (cases x) (simp_all, (rename_tac p, case_tac p, simp_all)?)

lemma escalation_frame:
  assumes "\<forall>x\<in>set L. stage x \<le> 3" "\<forall>x\<in>set XC. stage x = 4" "\<forall>x\<in>set H. stage x = 5"
  shows "filter is_escalation (L @ XC @ H) = XC"
    and "is_escalation x \<Longrightarrow> x \<in> set (L @ XC @ H) \<longleftrightarrow> x \<in> set XC"
proof -
  from assms(1) have "filter is_escalation L = []"
    by (auto simp: filter_empty_conv is_escalation_stage)
  moreover from assms(3) have "filter is_escalation H = []"
    by (auto simp: filter_empty_conv is_escalation_stage)
  moreover from assms(2) have "filter is_escalation XC = XC"
    by (auto simp: filter_id_conv is_escalation_stage)
  ultimately show "filter is_escalation (L @ XC @ H) = XC" by simp
  show "x \<in> set (L @ XC @ H) \<longleftrightarrow> x \<in> set XC" if "is_escalation x"
  proof -
    from that have "stage x = 4" by (simp add: is_escalation_stage)
    with assms(1,3) have "x \<notin> set L" "x \<notin> set H" by fastforce+
    then show ?thesis by simp
  qed
qed

lemma escalate_log_prefix:
  "escalate_log w r XC \<Longrightarrow>
   prefix XC [securebits_call, Setuid dockerRootUid, Setgid dockerRootGid, NewSyncPipe,
              Clone clone_flags]"
  unfolding escalate_log_def by (elim disjE conjE) simp_all

lemma escalate_log_setuid:
  assumes "escalate_log w r XC" "Setuid dockerRootUid \<in> set XC"
    "system_Setuid w dockerRootUid = Some m"
  shows "r = Inl (Return (Some (Errorf (''setuid '' @ m)))) \<and> last XC = Setuid dockerRootUid"
  using assms unfolding escalate_log_def securebits_call_def
  by (elim disjE conjE exE) simp_all

lemma escalate_log_setgid:
  assumes "escalate_log w r XC" "Setgid dockerRootGid \<in> set XC"
    "system_Setgid w dockerRootGid = Some m"
  shows "r = Inl (Return (Some (Errorf (''setgid '' @ m)))) \<and> last XC = Setgid dockerRootGid"
  using assms unfolding escalate_log_def securebits_call_def
  by (elim disjE conjE exE) simp_all

lemma escalate_log_clone:
  assumes "escalate_log w r XC" "Clone flags \<in> set XC"
  shows "system_Setuid w dockerRootUid = None \<and> system_Setgid w dockerRootGid = None"
  using assms unfolding escalate_log_def securebits_call_def
  by (elim disjE conjE exE) simp_all

lemma escalate_log_passed:
  assumes "escalate_log w (Inr pid) XC"
  shows "system_Setuid w dockerRootUid = None \<and> system_Setgid w dockerRootGid = None"
  using assms unfolding escalate_log_def
  by (elim disjE conjE exE) simp_all

lemma Init_escalation_frame:
  assumes "Init w c ur cp args (start env) = (out, s')"
  obtains L XC H r where
    "calls s' = L @ XC @ H"
    "\<forall>x\<in>set L. stage x \<le> 3" "\<forall>x\<in>set H. stage x = 5"
    "XC = [] \<or> escalate_log w r XC"
    "H = [] \<and> XC \<noteq> [] \<longrightarrow> r = Inl out"
    "H \<noteq> [] \<longrightarrow> (\<exists>pid. r = Inr pid)"
  using assms
proof (cases rule: Init_cases)
  case (in_setup XA)
  from in_setup(2) have "\<forall>x\<in>set XA. stage x \<le> 3" by (auto dest!: setup_log_stage)
  with in_setup(1) show ?thesis
    by (intro that [of XA "[]" "[]" "Inl out"]) (simp_all add: start_def)
next
  case (in_secure XA XB)
  from in_secure(2,3) have "\<forall>x\<in>set (XA @ XB). stage x \<le> 3"
    by (auto dest!: setup_log_stage secure_log_stage)
  with in_secure(1) show ?thesis
    by (intro that [of "XA @ XB" "[]" "[]" "Inl out"]) (simp_all add: start_def)
next
  case (in_escalate XA XB XC)
  from in_escalate(2,3) have "\<forall>x\<in>set (XA @ XB). stage x \<le> 3"
    by (auto dest!: setup_log_stage secure_log_stage)
  with in_escalate(1,4) show ?thesis
    by (intro that [of "XA @ XB" XC "[]" "Inl out"]) (simp_all add: start_def)
next
  case (in_parent XA XB XC XD pid)
  from in_parent(2,3) have "\<forall>x\<in>set (XA @ XB). stage x \<le> 3"
    by (auto dest!: setup_log_stage secure_log_stage)
  moreover from in_parent(6) have "\<forall>x\<in>set XD. stage x = 5" by (rule parent_log_stage)
  moreover from in_parent(6) have "XD \<noteq> []" by (auto simp: parent_log_def)
  ultimately show ?thesis using in_parent(1,4)
    by (intro that [of "XA @ XB" XC XD "Inr pid"]) (simp_all add: start_def)
next
  case (in_child XA XB XC XD)
  from in_child(2,3) have "\<forall>x\<in>set (XA @ XB). stage x \<le> 3"
    by (auto dest!: setup_log_stage secure_log_stage)
  moreover from in_child(5) have "\<forall>x\<in>set XD. stage x = 5" by (rule child_log_stage)
  moreover from in_child(5) have "XD \<noteq> []" by (auto simp: child_log_def)
  ultimately show ?thesis using in_child(1,4)
    by (intro that [of "XA @ XB" XC XD "Inr 0"]) (simp_all add: start_def)
qed

lemma low_stage_not_Initialize: "\<forall>x\<in>set X. 3 \<le> stage x \<Longrightarrow> filter is_Initialize X = []"
  by (auto simp: filter_empty_conv dest!: is_Initialize_stage)

lemma setup_log_payload:
  "setup_log w c r X \<Longrightarrow> syncPipe_ReadFromParent w = Inr ctx \<Longrightarrow>
   prefix (map Some (filter is_Initialize X)) (map (Initialize_of w ctx) (Networks c)) \<and>
   (LabelInit \<in> set X \<longrightarrow>
      map Some (filter is_Initialize X) = map (Initialize_of w ctx) (Networks c))"
  by (simp add: setup_log_def)

lemma setup_log_unregistered:
  "setup_log w c r X \<Longrightarrow> n \<in> set (Networks c) \<Longrightarrow> network_GetStrategy w (Type n) = Inl m \<Longrightarrow>
   \<forall>x\<in>set X. stage x \<le> 1"
  unfolding setup_log_def by blast

lemma setup_log_result:
  "setup_log w c r X \<Longrightarrow> r = Inr () \<and> LabelInit \<in> set X \<or> (\<exists>e. r = Inl (Return (Some e)))"
  unfolding setup_log_def by blast

lemma setup_log_last:
  "setup_log w c r X \<Longrightarrow> X \<noteq> [] \<Longrightarrow> last X = GetStrategy t \<Longrightarrow>
   network_GetStrategy w t = Inl m \<Longrightarrow>
   r = Inl (Return (Some (Errorf (''setup networking '' @ m))))"
  unfolding setup_log_def by fastforce

lemma Init_dispatch_frame:
  assumes "Init w c ur cp args (start env) = (out, s')"
  obtains XA R rA where
    "calls s' = XA @ R" "setup_log w c rA XA" "\<forall>x\<in>set R. 3 \<le> stage x"
    "R = [] \<longrightarrow> rA = Inl out \<or> rA = Inr ()" "R \<noteq> [] \<longrightarrow> rA = Inr ()"
  using assms
proof (cases rule: Init_cases)
  case (in_setup XA)
  then show ?thesis
    by (intro that [of XA "[]" "Inl out"]) (simp_all add: start_def)
next
  case (in_secure XA XB)
  then show ?thesis
    by (intro that [of XA XB "Inr ()"]) (auto simp: start_def dest!: secure_log_stage)
next
  case (in_escalate XA XB XC)
  then show ?thesis
    by (intro that [of XA "XB @ XC" "Inr ()"])
       (auto simp: start_def dest!: secure_log_stage escalate_log_stage)
next
  case (in_parent XA XB XC XD pid)
  then show ?thesis
    by (intro that [of XA "XB @ XC @ XD" "Inr ()"])
       (auto simp: start_def dest!: secure_log_stage escalate_log_stage parent_log_stage)
next
  case (in_child XA XB XC XD)
  then show ?thesis
    by (intro that [of XA "XB @ XC @ XD" "Inr ()"])
       (auto simp: start_def dest!: secure_log_stage escalate_log_stage child_log_stage)
qed

subsection \<open>The example runs, evaluated\<close>

lemmas eval_env =
  LoadContainerEnvironment_def Clearenv_call_def Setenv_call_def SplitN_eq_2_def issue_def
  start_def inherited_def invalid_environment_def applies_def key_of_def val_of_def
  new_calls_def

lemma run_path_bad_home:
  "fst (LoadContainerEnvironment calm path_bad_home (start inherited)) =
     Some (invalid_environment ''BAD'')"
  "calls (snd (LoadContainerEnvironment calm path_bad_home (start inherited))) =
     [Clearenv, Setenv ''PATH'' ''/bin'']"
  "environ (snd (LoadContainerEnvironment calm path_bad_home (start inherited))) ''PATH'' =
     Some ''/bin''"
  "environ (snd (LoadContainerEnvironment calm path_bad_home (start inherited))) ''OLD'' = None"
  "environ (snd (LoadContainerEnvironment calm path_bad_home (start inherited))) ''HOME'' = None"
  by (simp_all add: eval_env eval_world eval_box)

lemma run_nokey_bad:
  "fst (LoadContainerEnvironment calm nokey_bad (start inherited)) =
     Some (External ''invalid argument'')"
  "calls (snd (LoadContainerEnvironment calm nokey_bad (start inherited))) =
     [Clearenv, Setenv [] ''x'']"
  by (simp_all add: eval_env eval_world eval_box)

lemmas eval_Init =
  Init_def and_then_def Init_setup_def Init_secure_def Init_escalate_def Init_parent_def
  Init_child_def segs run LoadContainerEnvironment_def Clearenv_call_def Setenv_call_def
  SplitN_eq_2_def setupNetwork_def RestoreParentDeathSignal_def writeUserMappings_def
  issue_def ExitStatus_def index_def Let_def start_def Errorf_s_def
  uid_map_path_def gid_map_path_def Sprint_int_def digits.simps mode_0644_def mode_0666_def
  O_CREATE_def O_WRONLY_def O_APPEND_def PR_SET_SECUREBITS_def uintptr_def
  CLONE_NEWUSER_def CLONE_FILES_def SIGCHLD_def secbit_keep_caps_def
  secbit_no_setuid_fixup_def dockerRootUid_def dockerRootGid_def

lemma run_calm:
  "fst (Init calm box ''/rootfs'' [] [''/bin/true''] (start Map.empty)) = Exited 42"
  "calls (snd (Init calm box ''/rootfs'' [] [''/bin/true''] (start Map.empty))) =
    [ResolveRootfs ''/rootfs'', Clearenv, Setenv ''PATH'' ''/bin'', Setenv ''HOME'' ''/root'',
     ReadFromParent, Close ParentPipe, Setsid, GetStrategy ''veth'',
     Initialize ''veth'' veth0 Map.empty, LabelInit, InitializeMountNamespace ''/rootfs'' [],
     Sethostname ''box'', OpenFile ''/tmp/nsinit.log'' 1089 438, LockOSThread, ApplyProfile [],
     SetProcessLabel [], GetParentDeathSignal, GetParentDeathSignal, ParentDeathSignal 15,
     Getppid, Prctl 28 6 0 0 0, Setuid 1017, Setgid 1017, NewSyncPipe, Clone 0x10000411,
     Println ''In parent.'', FindProcess 4242,
     WriteFile ''/proc/4242/uid_map'' ''0 1017 1'' 420,
     WriteFile ''/proc/4242/gid_map'' ''0 1017 1'' 420, Close NestedPipe, ProcessWait 4242]"
  by (simp_all add: eval_Init eval_world eval_box)

lemma run_uid_denied:
  "fst (Init uid_denied box ''/rootfs'' [] [''/bin/true''] (start Map.empty)) =
     Return (Some (Errorf ''Failed to write mappings: permission denied''))"
  "calls (snd (Init uid_denied box ''/rootfs'' [] [''/bin/true''] (start Map.empty))) =
    [ResolveRootfs ''/rootfs'', Clearenv, Setenv ''PATH'' ''/bin'', Setenv ''HOME'' ''/root'',
     ReadFromParent, Close ParentPipe, Setsid, GetStrategy ''veth'',
     Initialize ''veth'' veth0 Map.empty, LabelInit, InitializeMountNamespace ''/rootfs'' [],
     Sethostname ''box'', OpenFile ''/tmp/nsinit.log'' 1089 438, LockOSThread, ApplyProfile [],
     SetProcessLabel [], GetParentDeathSignal, GetParentDeathSignal, ParentDeathSignal 15,
     Getppid, Prctl 28 6 0 0 0, Setuid 1017, Setgid 1017, NewSyncPipe, Clone 0x10000411,
     Println ''In parent.'', FindProcess 4242,
     WriteFile ''/proc/4242/uid_map'' ''0 1017 1'' 420, ProcessKill 4242]"
  by (simp_all add: eval_Init eval_world eval_box)

lemma run_no_log_file:
  "fst (Init no_log_file box ''/rootfs'' [] [''/bin/true''] (start Map.empty)) = Return None"
  "calls (snd (Init no_log_file box ''/rootfs'' [] [''/bin/true''] (start Map.empty))) =
    [ResolveRootfs ''/rootfs'', Clearenv, Setenv ''PATH'' ''/bin'', Setenv ''HOME'' ''/root'',
     ReadFromParent, Close ParentPipe, Setsid, GetStrategy ''veth'',
     Initialize ''veth'' veth0 Map.empty, LabelInit, InitializeMountNamespace ''/rootfs'' [],
     Sethostname ''box'', OpenFile ''/tmp/nsinit.log'' 1089 438]"
  by (simp_all add: eval_Init eval_world eval_box)

lemma run_setuid_denied:
  "fst (Init setuid_denied box ''/rootfs'' [] [''/bin/true''] (start Map.empty)) =
     Return (Some (Errorf ''setuid operation not permitted''))"
  "calls (snd (Init setuid_denied box ''/rootfs'' [] [''/bin/true''] (start Map.empty))) =
    [ResolveRootfs ''/rootfs'', Clearenv, Setenv ''PATH'' ''/bin'', Setenv ''HOME'' ''/root'',
     ReadFromParent, Close ParentPipe, Setsid, GetStrategy ''veth'',
     Initialize ''veth'' veth0 Map.empty, LabelInit, InitializeMountNamespace ''/rootfs'' [],
     Sethostname ''box'', OpenFile ''/tmp/nsinit.log'' 1089 438, LockOSThread, ApplyProfile [],
     SetProcessLabel [], GetParentDeathSignal, GetParentDeathSignal, ParentDeathSignal 15,
     Getppid, Prctl 28 6 0 0 0, Setuid 1017]"
  by (simp_all add: eval_Init eval_world eval_box)

lemma run_two_networks:
  "fst (Init calm two_networks ''/rootfs'' [] [''/bin/true''] (start Map.empty)) =
     Return (Some (Errorf ''setup networking unknown network type''))"
  "calls (snd (Init calm two_networks ''/rootfs'' [] [''/bin/true''] (start Map.empty))) =
    [ResolveRootfs ''/rootfs'', Clearenv, Setenv ''PATH'' ''/bin'', Setenv ''HOME'' ''/root'',
     ReadFromParent, Close ParentPipe, Setsid, GetStrategy ''veth'',
     Initialize ''veth'' veth0 Map.empty, GetStrategy ''macvlan'']"
  by (simp_all add: eval_Init eval_world eval_box)

lemma run_setgid_denied:
  "fst (Init setgid_denied box ''/rootfs'' [] [''/bin/true''] (start Map.empty)) =
     Return (Some (Errorf ''setgid operation not permitted''))"
  "calls (snd (Init setgid_denied box ''/rootfs'' [] [''/bin/true''] (start Map.empty))) =
    [ResolveRootfs ''/rootfs'', Clearenv, Setenv ''PATH'' ''/bin'', Setenv ''HOME'' ''/root'',
     ReadFromParent, Close ParentPipe, Setsid, GetStrategy ''veth'',
     Initialize ''veth'' veth0 Map.empty, LabelInit, InitializeMountNamespace ''/rootfs'' [],
     Sethostname ''box'', OpenFile ''/tmp/nsinit.log'' 1089 438, LockOSThread, ApplyProfile [],
     SetProcessLabel [], GetParentDeathSignal, GetParentDeathSignal, ParentDeathSignal 15,
     Getppid, Prctl 28 6 0 0 0, Setuid 1017, Setgid 1017]"
  by (simp_all add: eval_Init eval_world eval_box)

lemma proc_paths:
  "uid_map_path 4242 = ''/proc/4242/uid_map''" "gid_map_path 4242 = ''/proc/4242/gid_map''"
  by (simp_all add: uid_map_path_def gid_map_path_def Sprint_int_def digits.simps)

section \<open>Properties of the specification\<close>

text \<open>
  C1. When the clone has returned a child to the escalating parent, the files \<open>Init\<close>
  writes are these and no others: the line \<open>0 1017 1\<close> (namespace id 0, the host id
  \<open>dockerRootUid\<close>, a count of one; no line feed in it) to \<open>/proc/<pid>/uid_map\<close> and
  then the same line to \<open>/proc/<pid>/gid_map\<close>, each once and with mode 0644. The
  parent writes nothing when the process lookup fails, and only \<open>uid_map\<close> when that
  first write fails; it never writes another line, file or mode.
\<close>

theorem Init_writes_one_mapping_line:
  assumes run: "Init w c ur cp args (start env) = (out, s')"
    and spawned: "Clone clone_flags \<in> set (calls s')" "system_Clone w clone_flags = Inr pid"
      "pid \<noteq> 0"
  shows "filter is_WriteFile (calls s') =
           (if os_FindProcess w pid \<noteq> None then []
            else if ioutil_WriteFile w (uid_map_path pid) ''0 1017 1'' mode_0644 \<noteq> None
            then [WriteFile (uid_map_path pid) ''0 1017 1'' mode_0644]
            else [WriteFile (uid_map_path pid) ''0 1017 1'' mode_0644,
                  WriteFile (gid_map_path pid) ''0 1017 1'' mode_0644]) \<and>
         ''0 1017 1'' = ''0 '' @ Sprint_int dockerRootUid @ '' 1'' \<and>
         uid_map_path pid = ''/proc/'' @ Sprint_int pid @ ''/uid_map'' \<and>
         gid_map_path pid = ''/proc/'' @ Sprint_int pid @ ''/gid_map'' \<and>
         uid_map_path pid \<noteq> gid_map_path pid \<and>
         mode_0644 = 6 * 8 ^ 2 + 4 * 8 + 4"
proof -
  have known: "''0 1017 1'' = ''0 '' @ Sprint_int dockerRootUid @ '' 1''"
    "uid_map_path pid = ''/proc/'' @ Sprint_int pid @ ''/uid_map''"
    "gid_map_path pid = ''/proc/'' @ Sprint_int pid @ ''/gid_map''"
    "uid_map_path pid \<noteq> gid_map_path pid"
    "mode_0644 = 6 * 8 ^ 2 + 4 * 8 + 4"
    using mapping_line_eq
    by (simp_all add: mapping_line_def uid_map_path_def gid_map_path_def mode_0644_def)
  have "filter is_WriteFile (calls s') =
           (if os_FindProcess w pid \<noteq> None then []
            else if ioutil_WriteFile w (uid_map_path pid) mapping_line mode_0644 \<noteq> None
            then [write_uid_map pid]
            else [write_uid_map pid, write_gid_map pid])"
    using run
  proof (cases rule: Init_cases)
    case (in_setup XA)
    with spawned(1) show ?thesis
      by (auto simp: start_def dest!: setup_log_stage)
  next
    case (in_secure XA XB)
    with spawned(1) show ?thesis
      by (auto simp: start_def dest!: setup_log_stage secure_log_stage)
  next
    case (in_escalate XA XB XC)
    from in_escalate(1,2,3) spawned(1) have "Clone clone_flags \<in> set XC"
      by (auto simp: start_def dest!: setup_log_stage secure_log_stage)
    with in_escalate(4) spawned(2) show ?thesis
      by (auto simp: escalate_log_def securebits_call_def)
  next
    case (in_parent XA XB XC XD pid')
    from in_parent(4) spawned(2) have pid: "pid' = pid"
      by (auto simp: escalate_log_def)
    have low: "filter is_WriteFile (XA @ XB @ XC) = []"
      using in_parent(2,3,4)
      by (intro no_WriteFile_stage)
         (auto dest!: setup_log_stage secure_log_stage escalate_log_stage)
    from in_parent(6) have "filter is_WriteFile XD =
           (if os_FindProcess w pid \<noteq> None then []
            else if ioutil_WriteFile w (uid_map_path pid) mapping_line mode_0644 \<noteq> None
            then [write_uid_map pid]
            else [write_uid_map pid, write_gid_map pid])"
      unfolding pid by (auto simp: parent_log_def write_uid_map_def write_gid_map_def)
    with low in_parent(1) show ?thesis by (simp add: start_def)
  next
    case (in_child XA XB XC XD)
    with spawned(2,3) show ?thesis by (auto simp: escalate_log_def)
  qed
  with known show ?thesis
    by (simp add: mapping_line_eq write_uid_map_def write_gid_map_def)
qed

theorem Init_writes_one_mapping_line_witness:
  "Clone clone_flags \<in> set (calls (snd (Init calm box ''/rootfs'' [] [''/bin/true''] (start Map.empty)))) \<and>
   system_Clone calm clone_flags = Inr 4242 \<and> (4242::int) \<noteq> 0 \<and>
   os_FindProcess calm 4242 = None \<and>
   ioutil_WriteFile calm (uid_map_path 4242) ''0 1017 1'' mode_0644 = None \<and>
   filter is_WriteFile (calls (snd (Init calm box ''/rootfs'' [] [''/bin/true''] (start Map.empty)))) =
     [WriteFile ''/proc/4242/uid_map'' ''0 1017 1'' 420,
      WriteFile ''/proc/4242/gid_map'' ''0 1017 1'' 420]"
proof -
  have h1: "Clone clone_flags \<in>
      set (calls (snd (Init calm box ''/rootfs'' [] [''/bin/true''] (start Map.empty))))"
    by (simp add: run_calm clone_flags_value)
  have h2: "system_Clone calm clone_flags = Inr 4242" "(4242::int) \<noteq> 0"
    by (simp_all add: eval_world)
  note h = h1 h2
  have ok: "os_FindProcess calm 4242 = None"
    "ioutil_WriteFile calm (uid_map_path 4242) ''0 1017 1'' mode_0644 = None"
    by (simp_all add: eval_world)
  from Init_writes_one_mapping_line [OF surjective_pairing h] ok h show ?thesis
    by (simp add: proc_paths mode_values)
qed

text \<open>
  C2. When a mapping write that \<open>Init\<close> issues fails, \<open>Init\<close> returns the error
  \<open>Failed to write mappings: \<close> followed by the message of the failure, its last call
  kills the child the clone returned, the file was that child's \<open>uid_map\<close> or
  \<open>gid_map\<close>, and no wait is ever called.
\<close>

theorem Init_mapping_write_failure:
  assumes run: "Init w c ur cp args (start env) = (out, s')"
    and written: "WriteFile p d m \<in> set (calls s')"
    and failed: "ioutil_WriteFile w p d m = Some msg"
  shows "out = Return (Some (Errorf (''Failed to write mappings: '' @ msg))) \<and>
         prefix ''Failed to write mappings'' (Error (Errorf (''Failed to write mappings: '' @ msg))) \<and>
         (\<exists>pid. system_Clone w clone_flags = Inr pid \<and> pid \<noteq> 0 \<and>
                (p = uid_map_path pid \<or> p = gid_map_path pid) \<and>
                last (calls s') = ProcessKill pid) \<and>
         (\<forall>q. ProcessWait q \<notin> set (calls s'))"
  using run
proof (cases rule: Init_cases)
  case (in_setup XA)
  with written show ?thesis
    by (auto simp: start_def dest!: setup_log_stage)
next
  case (in_secure XA XB)
  with written show ?thesis
    by (auto simp: start_def dest!: setup_log_stage secure_log_stage)
next
  case (in_escalate XA XB XC)
  with written show ?thesis
    by (auto simp: start_def dest!: setup_log_stage secure_log_stage escalate_log_stage)
next
  case (in_parent XA XB XC XD pid)
  have low: "\<forall>x\<in>set (XA @ XB @ XC). stage x \<le> 4"
    using in_parent(2,3,4)
    by (auto dest!: setup_log_stage secure_log_stage escalate_log_stage)
  with written in_parent(1) not_before_clone(1) [OF low, of p d m]
  have "WriteFile p d m \<in> set XD"
    by (simp add: start_def)
  with in_parent(6) failed have
    "out = Return (Some (Errorf (''Failed to write mappings: '' @ msg))) \<and>
     (p = uid_map_path pid \<or> p = gid_map_path pid) \<and>
     XD \<noteq> [] \<and> last XD = ProcessKill pid \<and> (\<forall>q. ProcessWait q \<notin> set XD)"
    by (auto simp: parent_log_def write_uid_map_def write_gid_map_def)
  moreover from in_parent(4) have "system_Clone w clone_flags = Inr pid"
    by (auto simp: escalate_log_def)
  moreover have "\<forall>q. ProcessWait q \<notin> set (XA @ XB @ XC)"
    using not_before_clone(2) [OF low] by blast
  ultimately show ?thesis
    using in_parent(1,5) by (auto simp: start_def)
next
  case (in_child XA XB XC XD)
  with written show ?thesis
    by (auto simp: start_def child_log_def
        dest!: setup_log_stage secure_log_stage escalate_log_stage)
qed

theorem Init_mapping_write_failure_witness:
  "WriteFile ''/proc/4242/uid_map'' ''0 1017 1'' 420 \<in>
     set (calls (snd (Init uid_denied box ''/rootfs'' [] [''/bin/true''] (start Map.empty)))) \<and>
   ioutil_WriteFile uid_denied ''/proc/4242/uid_map'' ''0 1017 1'' 420 = Some ''permission denied'' \<and>
   fst (Init uid_denied box ''/rootfs'' [] [''/bin/true''] (start Map.empty)) =
     Return (Some (Errorf ''Failed to write mappings: permission denied'')) \<and>
   last (calls (snd (Init uid_denied box ''/rootfs'' [] [''/bin/true''] (start Map.empty)))) =
     ProcessKill 4242 \<and>
   ProcessWait 4242 \<notin>
     set (calls (snd (Init uid_denied box ''/rootfs'' [] [''/bin/true''] (start Map.empty))))"
proof -
  have h: "WriteFile ''/proc/4242/uid_map'' ''0 1017 1'' 420 \<in>
      set (calls (snd (Init uid_denied box ''/rootfs'' [] [''/bin/true''] (start Map.empty))))"
    "ioutil_WriteFile uid_denied ''/proc/4242/uid_map'' ''0 1017 1'' 420 = Some ''permission denied''"
    by (simp add: run_uid_denied, simp add: eval_world proc_paths)
  have c: "system_Clone uid_denied clone_flags = Inr 4242"
    by (simp add: eval_world)
  from Init_mapping_write_failure [OF surjective_pairing h] c h show ?thesis
    by auto
qed

text \<open>
  C3. When \<open>Init\<close> has waited for the child and the wait succeeded with a status whose
  exit status is \<open>code\<close>, between 0 and 255, the parent ends by \<open>os.Exit(code)\<close>, the
  wait being its last call, and the status the kernel records for the parent is
  \<open>code\<close>. Every such code is the exit status of some wait status: that of a child
  that exited with it.
\<close>

theorem Init_propagates_exit_status:
  assumes run: "Init w c ur cp args (start env) = (out, s')"
    and wait: "ProcessWait pid \<in> set (calls s')"
    and ok: "proc_Wait w pid = Inr ws"
    and code: "ExitStatus ws = code" "0 \<le> code" "code \<le> 255"
  shows "out = Exited code \<and> exit_status out = Some code \<and>
         last (calls s') = ProcessWait pid \<and>
         ExitStatus (push_bit 8 (word_of_int code)) = code"
proof -
  have "out = Exited code \<and> exit_status out = Some code \<and> last (calls s') = ProcessWait pid"
    using run
  proof (cases rule: Init_cases)
    case (in_setup XA)
    with wait stage_mem [of "ProcessWait pid" XA "\<lambda>n. n \<le> 2"] show ?thesis
      by (auto simp: start_def dest: setup_log_stage)
  next
    case (in_secure XA XB)
    with wait show ?thesis
      by (auto simp: start_def dest!: setup_log_stage secure_log_stage)
  next
    case (in_escalate XA XB XC)
    with wait show ?thesis
      by (auto simp: start_def dest!: setup_log_stage secure_log_stage escalate_log_stage)
  next
    case (in_parent XA XB XC XD pid')
    from in_parent(1) wait have "ProcessWait pid \<in> set XD"
      using in_parent(2,3,4)
      by (auto simp: start_def dest!: setup_log_stage secure_log_stage escalate_log_stage)
    with in_parent(6) ok code have "out = Exited code \<and> XD \<noteq> [] \<and> last XD = ProcessWait pid"
      by (auto simp: parent_log_def write_uid_map_def write_gid_map_def)
    with in_parent(1) code show ?thesis by (simp add: start_def)
  next
    case (in_child XA XB XC XD)
    with wait show ?thesis
      by (auto simp: start_def child_log_def dest!: setup_log_stage secure_log_stage escalate_log_stage)
  qed
  with ExitStatus_exited [OF code(2,3)] show ?thesis by blast
qed

theorem Init_propagates_exit_status_witness:
  "ProcessWait 4242 \<in>
     set (calls (snd (Init calm box ''/rootfs'' [] [''/bin/true''] (start Map.empty)))) \<and>
   proc_Wait calm 4242 = Inr 0x2A00 \<and> ExitStatus 0x2A00 = 42 \<and> (0::int) \<le> 42 \<and> (42::int) \<le> 255 \<and>
   fst (Init calm box ''/rootfs'' [] [''/bin/true''] (start Map.empty)) = Exited 42 \<and>
   exit_status (fst (Init calm box ''/rootfs'' [] [''/bin/true''] (start Map.empty))) = Some 42"
proof -
  have h: "ProcessWait 4242 \<in>
      set (calls (snd (Init calm box ''/rootfs'' [] [''/bin/true''] (start Map.empty))))"
    "proc_Wait calm 4242 = Inr 0x2A00" "ExitStatus 0x2A00 = 42" "(0::int) \<le> 42" "(42::int) \<le> 255"
    by (simp add: run_calm, simp_all add: eval_world ExitStatus_def)
  from Init_propagates_exit_status [OF surjective_pairing h] h show ?thesis
    by simp
qed

text \<open>
  C4. The claim (every failure of a step up to the clone makes \<open>Init\<close> return an error)
  does not hold of the code: in the world \<open>no_log_file\<close> every step succeeds until
  \<open>os.OpenFile\<close> of \<open>/tmp/nsinit.log\<close> fails, and \<open>Init\<close> returns \<open>nil\<close> there, with
  the open as its last call: no securebits, no identity switch, no clone and no exec.
\<close>

theorem Init_log_file_failure_returns_nil:
  "os_OpenFile no_log_file ''/tmp/nsinit.log'' = Some ''read-only file system'' \<and>
   fst (Init no_log_file box ''/rootfs'' [] [''/bin/true''] (start Map.empty)) = Return None \<and>
   last (calls (snd (Init no_log_file box ''/rootfs'' [] [''/bin/true''] (start Map.empty)))) =
     OpenFile ''/tmp/nsinit.log'' (O_CREATE OR O_WRONLY OR O_APPEND) mode_0666 \<and>
   Clone clone_flags \<notin>
     set (calls (snd (Init no_log_file box ''/rootfs'' [] [''/bin/true''] (start Map.empty)))) \<and>
   Exec ''/bin/true'' [''/bin/true''] (Env box) \<notin>
     set (calls (snd (Init no_log_file box ''/rootfs'' [] [''/bin/true''] (start Map.empty))))"
proof -
  have "os_OpenFile no_log_file ''/tmp/nsinit.log'' = Some ''read-only file system''"
    by (simp add: eval_world)
  then show ?thesis
    by (simp add: run_no_log_file mode_values O_CREATE_def O_WRONLY_def O_APPEND_def)
qed

text \<open>
  C5, as amended. When the declared environment has an entry without \<open>=\<close>,
  \<open>LoadContainerEnvironment\<close> fails. It stops at the first entry \<open>q\<close> that is not
  applied: when \<open>q\<close> has no \<open>=\<close> the error is the invalid-environment error of \<open>q\<close>
  (so it is whenever every entry before the first one without \<open>=\<close> is applied), and
  otherwise it is the error of \<open>os.Setenv\<close>. Afterwards the environment holds exactly
  the entries before \<open>q\<close>, on top of the cleared environment, and the calls issued are
  the clearing, the \<open>Setenv\<close> of the entries before \<open>q\<close>, and that of \<open>q\<close> when it has
  an \<open>=\<close>: no later entry is touched. The claim as stated fails: the entries before \<open>q\<close>
  stay applied, and an earlier \<open>os.Setenv\<close> failure is reported instead of the
  configuration error.
\<close>

theorem LoadContainerEnvironment_entry_without_separator:
  assumes "pair \<in> set (Env c)" and "CHR ''='' \<notin> set pair"
  shows "dropWhile (applies w) (Env c) \<noteq> [] \<and>
    (let q = hd (dropWhile (applies w) (Env c));
         applied = takeWhile (applies w) (Env c);
         r = fst (LoadContainerEnvironment w c s);
         s' = snd (LoadContainerEnvironment w c s) in
     r \<noteq> None \<and>
     r = (if CHR ''='' \<in> set q then map_option External (os_Setenv w (key_of q) (val_of q))
          else Some (invalid_environment q)) \<and>
     (list_all (applies w) (takeWhile (\<lambda>p. CHR ''='' \<in> set p) (Env c)) \<longrightarrow>
        r = Some (invalid_environment (hd (dropWhile (\<lambda>p. CHR ''='' \<in> set p) (Env c))))) \<and>
     environ s' = fold bind_pair applied Map.empty \<and>
     new_calls s s' =
       Clearenv # map Setenv_of applied @ (if CHR ''='' \<in> set q then [Setenv_of q] else []))"
proof -
  from assms have na: "\<not> applies w pair" by (simp add: applies_def)
  with assms(1) have ne: "dropWhile (applies w) (Env c) \<noteq> []"
    by auto
  then obtain q rest where q: "dropWhile (applies w) (Env c) = q # rest"
    by (cases "dropWhile (applies w) (Env c)") auto
  then have nq: "\<not> applies w q" by (auto dest: dropWhile_hd_in)
  have r: "fst (LoadContainerEnvironment w c s) =
      (if CHR ''='' \<in> set q then map_option External (os_Setenv w (key_of q) (val_of q))
       else Some (invalid_environment q))"
    by (simp add: LoadContainerEnvironment_closed env_result_def q)
  have r_ne: "fst (LoadContainerEnvironment w c s) \<noteq> None"
    using nq by (auto simp: r applies_def)
  have first: "fst (LoadContainerEnvironment w c s) =
      Some (invalid_environment (hd (dropWhile (\<lambda>p. CHR ''='' \<in> set p) (Env c))))"
    if all: "list_all (applies w) (takeWhile (\<lambda>p. CHR ''='' \<in> set p) (Env c))"
  proof -
    from assms have "dropWhile (\<lambda>p. CHR ''='' \<in> set p) (Env c) \<noteq> []"
      by auto
    then obtain b post where b: "dropWhile (\<lambda>p. CHR ''='' \<in> set p) (Env c) = b # post"
      by (cases "dropWhile (\<lambda>p. CHR ''='' \<in> set p) (Env c)") auto
    then have nb: "CHR ''='' \<notin> set b" by (auto dest: dropWhile_hd_in)
    have split: "Env c = takeWhile (\<lambda>p. CHR ''='' \<in> set p) (Env c) @ b # post"
      using b by (metis takeWhile_dropWhile_id)
    from nb have "\<not> applies w b" by (simp add: applies_def)
    with all have "dropWhile (applies w) (Env c) = b # post"
      by (subst split) (simp add: dropWhile_reached list_all_iff)
    with q nb b show ?thesis by (simp add: r)
  qed
  have e: "environ (snd (LoadContainerEnvironment w c s)) =
      fold bind_pair (takeWhile (applies w) (Env c)) Map.empty"
    by (simp add: LoadContainerEnvironment_closed)
  have l: "new_calls s (snd (LoadContainerEnvironment w c s)) =
      Clearenv # map Setenv_of (takeWhile (applies w) (Env c)) @
        (if CHR ''='' \<in> set q then [Setenv_of q] else [])"
    by (simp add: LoadContainerEnvironment_closed new_calls_def env_log_def q)
  from ne r r_ne first e l q show ?thesis
    by (simp add: Let_def)
qed

theorem LoadContainerEnvironment_entry_without_separator_witness:
  "''BAD'' \<in> set (Env path_bad_home) \<and> CHR ''='' \<notin> set ''BAD'' \<and>
   fst (LoadContainerEnvironment calm path_bad_home (start inherited)) =
     Some (invalid_environment ''BAD'') \<and>
   environ (snd (LoadContainerEnvironment calm path_bad_home (start inherited))) =
     fold bind_pair [''PATH=/bin''] Map.empty \<and>
   new_calls (start inherited) (snd (LoadContainerEnvironment calm path_bad_home (start inherited))) =
     [Clearenv, Setenv ''PATH'' ''/bin'']"
proof -
  have h: "''BAD'' \<in> set (Env path_bad_home)" "CHR ''='' \<notin> set ''BAD''"
    by (simp_all add: eval_box)
  have e: "takeWhile (applies calm) (Env path_bad_home) = [''PATH=/bin'']"
    "dropWhile (applies calm) (Env path_bad_home) = [''BAD'', ''HOME=/root'']"
    "list_all (applies calm) (takeWhile (\<lambda>p. CHR ''='' \<in> set p) (Env path_bad_home))"
    "dropWhile (\<lambda>p. CHR ''='' \<in> set p) (Env path_bad_home) = [''BAD'', ''HOME=/root'']"
    "Setenv_of ''PATH=/bin'' = Setenv ''PATH'' ''/bin''"
    by (simp_all add: eval_box eval_world applies_def key_of_def val_of_def Setenv_of_def)
  from LoadContainerEnvironment_entry_without_separator
         [OF h, where w = calm and s = "start inherited", unfolded Let_def] e h
  show ?thesis by simp
qed

theorem LoadContainerEnvironment_partial_counterexample:
  "''BAD'' \<in> set (Env path_bad_home) \<and> CHR ''='' \<notin> set ''BAD'' \<and>
   fst (LoadContainerEnvironment calm path_bad_home (start inherited)) =
     Some (invalid_environment ''BAD'') \<and>
   environ (snd (LoadContainerEnvironment calm path_bad_home (start inherited))) ''PATH'' =
     Some ''/bin'' \<and>
   environ (snd (LoadContainerEnvironment calm path_bad_home (start inherited))) ''OLD'' = None \<and>
   environ (start inherited) ''OLD'' = Some ''1'' \<and>
   environ (start inherited) ''PATH'' = None \<and>
   environ (snd (LoadContainerEnvironment calm path_bad_home (start inherited))) \<noteq>
     environ (start inherited) \<and>
   environ (snd (LoadContainerEnvironment calm path_bad_home (start inherited))) \<noteq> Map.empty \<and>
   ''BAD'' \<in> set (Env nokey_bad) \<and>
   fst (LoadContainerEnvironment calm nokey_bad (start inherited)) =
     Some (External ''invalid argument'')"
proof -
  have "environ (snd (LoadContainerEnvironment calm path_bad_home (start inherited))) \<noteq>
     environ (start inherited)"
    using run_path_bad_home(4) by (auto simp: start_def inherited_def dest: fun_cong [where x = "''OLD''"])
  moreover have
    "environ (snd (LoadContainerEnvironment calm path_bad_home (start inherited))) \<noteq> Map.empty"
    using run_path_bad_home(3) by (auto dest: fun_cong [where x = "''PATH''"])
  ultimately show ?thesis
    by (simp add: run_path_bad_home run_nokey_bad) (simp add: eval_box start_def inherited_def)
qed

text \<open>
  C6. In every run of \<open>Init\<close> the calls of the escalation that were issued are, in this
  order and each once, an initial part of: the securebits \<open>prctl\<close> with argument
  \<open>4 | 2 = 6\<close>, \<open>Setuid\<close> and \<open>Setgid\<close> to the fixed host identity, the nested pipe,
  the clone. So the securebits call comes before the identity switch and the switch
  before the clone. When the \<open>Setuid\<close> or the \<open>Setgid\<close> that was issued fails, it is
  the last call and \<open>Init\<close> returns its error; and a clone is issued only when both
  succeed.
\<close>

theorem Init_securebits_before_identity:
  assumes run: "Init w c ur cp args (start env) = (out, s')"
  shows "prefix (filter is_escalation (calls s'))
           [Prctl PR_SET_SECUREBITS (uintptr (secbit_keep_caps OR secbit_no_setuid_fixup)) 0 0 0,
            Setuid dockerRootUid, Setgid dockerRootGid, NewSyncPipe, Clone clone_flags] \<and>
         secbit_keep_caps = 4 \<and> secbit_no_setuid_fixup = 2 \<and>
         uintptr (secbit_keep_caps OR secbit_no_setuid_fixup) = 6 \<and>
         (\<forall>m. Setuid dockerRootUid \<in> set (calls s') \<and> system_Setuid w dockerRootUid = Some m \<longrightarrow>
              out = Return (Some (Errorf (''setuid '' @ m))) \<and>
              last (calls s') = Setuid dockerRootUid) \<and>
         (\<forall>m. Setgid dockerRootGid \<in> set (calls s') \<and> system_Setgid w dockerRootGid = Some m \<longrightarrow>
              out = Return (Some (Errorf (''setgid '' @ m))) \<and>
              last (calls s') = Setgid dockerRootGid) \<and>
         (\<forall>flags. Clone flags \<in> set (calls s') \<longrightarrow>
              system_Setuid w dockerRootUid = None \<and> system_Setgid w dockerRootGid = None)"
proof -
  from run obtain L XC H r where
    log: "calls s' = L @ XC @ H"
    and L: "\<forall>x\<in>set L. stage x \<le> 3" and H: "\<forall>x\<in>set H. stage x = 5"
    and XC: "XC = [] \<or> escalate_log w r XC"
    and stop: "H = [] \<and> XC \<noteq> [] \<longrightarrow> r = Inl out"
    and go: "H \<noteq> [] \<longrightarrow> (\<exists>pid. r = Inr pid)"
    by (rule Init_escalation_frame)
  from XC have C: "\<forall>x\<in>set XC. stage x = 4"
    by (auto dest!: escalate_log_stage)
  note frame = escalation_frame [OF L C H]
  have bits: "secbit_keep_caps = 4" "secbit_no_setuid_fixup = 2"
    "uintptr (secbit_keep_caps OR secbit_no_setuid_fixup) = 6"
    by (simp_all add: secbit_keep_caps_def secbit_no_setuid_fixup_def uintptr_def)
  have order: "prefix (filter is_escalation (calls s'))
      [securebits_call, Setuid dockerRootUid, Setgid dockerRootGid, NewSyncPipe, Clone clone_flags]"
  proof -
    have "filter is_escalation (calls s') = XC" by (simp only: log frame(1))
    with XC show ?thesis by (auto dest: escalate_log_prefix)
  qed
  have uid: "out = Return (Some (Errorf (''setuid '' @ m))) \<and> last (calls s') = Setuid dockerRootUid"
    if "Setuid dockerRootUid \<in> set (calls s')" "system_Setuid w dockerRootUid = Some m" for m
  proof -
    from that(1) have in_XC: "Setuid dockerRootUid \<in> set XC"
      by (simp only: log frame(2) is_escalation.simps)
    with XC have e: "escalate_log w r XC" by auto
    from escalate_log_setuid [OF e in_XC that(2)]
    have r: "r = Inl (Return (Some (Errorf (''setuid '' @ m))))" "last XC = Setuid dockerRootUid"
      by simp_all
    with go have "H = []" by auto
    moreover from in_XC have "XC \<noteq> []" by auto
    ultimately show ?thesis using stop r by (simp add: log)
  qed
  have gid: "out = Return (Some (Errorf (''setgid '' @ m))) \<and> last (calls s') = Setgid dockerRootGid"
    if "Setgid dockerRootGid \<in> set (calls s')" "system_Setgid w dockerRootGid = Some m" for m
  proof -
    from that(1) have in_XC: "Setgid dockerRootGid \<in> set XC"
      by (simp only: log frame(2) is_escalation.simps)
    with XC have e: "escalate_log w r XC" by auto
    from escalate_log_setgid [OF e in_XC that(2)]
    have r: "r = Inl (Return (Some (Errorf (''setgid '' @ m))))" "last XC = Setgid dockerRootGid"
      by simp_all
    with go have "H = []" by auto
    moreover from in_XC have "XC \<noteq> []" by auto
    ultimately show ?thesis using stop r by (simp add: log)
  qed
  have clone: "system_Setuid w dockerRootUid = None \<and> system_Setgid w dockerRootGid = None"
    if "Clone flags \<in> set (calls s')" for flags
  proof -
    from that have in_XC: "Clone flags \<in> set XC"
      by (simp only: log frame(2) is_escalation.simps)
    with XC have e: "escalate_log w r XC" by auto
    from escalate_log_clone [OF e in_XC] show ?thesis .
  qed
  from order bits uid gid clone show ?thesis
    unfolding securebits_call_def by blast
qed

theorem Init_securebits_before_identity_witness:
  "Setuid dockerRootUid \<in>
     set (calls (snd (Init setuid_denied box ''/rootfs'' [] [''/bin/true''] (start Map.empty)))) \<and>
   system_Setuid setuid_denied dockerRootUid = Some ''operation not permitted'' \<and>
   fst (Init setuid_denied box ''/rootfs'' [] [''/bin/true''] (start Map.empty)) =
     Return (Some (Errorf ''setuid operation not permitted'')) \<and>
   Setgid dockerRootGid \<in>
     set (calls (snd (Init setgid_denied box ''/rootfs'' [] [''/bin/true''] (start Map.empty)))) \<and>
   system_Setgid setgid_denied dockerRootGid = Some ''operation not permitted'' \<and>
   fst (Init setgid_denied box ''/rootfs'' [] [''/bin/true''] (start Map.empty)) =
     Return (Some (Errorf ''setgid operation not permitted'')) \<and>
   Clone clone_flags \<in>
     set (calls (snd (Init calm box ''/rootfs'' [] [''/bin/true''] (start Map.empty)))) \<and>
   system_Setuid calm dockerRootUid = None \<and> system_Setgid calm dockerRootGid = None \<and>
   prefix (filter is_escalation
             (calls (snd (Init calm box ''/rootfs'' [] [''/bin/true''] (start Map.empty)))))
     [Prctl 28 6 0 0 0, Setuid 1017, Setgid 1017, NewSyncPipe, Clone clone_flags]"
proof -
  have u: "Setuid dockerRootUid \<in>
      set (calls (snd (Init setuid_denied box ''/rootfs'' [] [''/bin/true''] (start Map.empty))))"
    "system_Setuid setuid_denied dockerRootUid = Some ''operation not permitted''"
    by (simp add: run_setuid_denied dockerRootUid_def, simp add: eval_world)
  have g: "Setgid dockerRootGid \<in>
      set (calls (snd (Init setgid_denied box ''/rootfs'' [] [''/bin/true''] (start Map.empty))))"
    "system_Setgid setgid_denied dockerRootGid = Some ''operation not permitted''"
    by (simp add: run_setgid_denied dockerRootGid_def, simp add: eval_world)
  have k: "Clone clone_flags \<in>
      set (calls (snd (Init calm box ''/rootfs'' [] [''/bin/true''] (start Map.empty))))"
    by (simp add: run_calm clone_flags_value)
  note t = Init_securebits_before_identity [OF surjective_pairing]
  from t [where w = setuid_denied and c = box and ur = "''/rootfs''" and cp = "[]"
          and args = "[''/bin/true'']" and env = Map.empty] u
  have 1: "fst (Init setuid_denied box ''/rootfs'' [] [''/bin/true''] (start Map.empty)) =
     Return (Some (Errorf ''setuid operation not permitted''))" by auto
  from t [where w = setgid_denied and c = box and ur = "''/rootfs''" and cp = "[]"
          and args = "[''/bin/true'']" and env = Map.empty] g
  have 2: "fst (Init setgid_denied box ''/rootfs'' [] [''/bin/true''] (start Map.empty)) =
     Return (Some (Errorf ''setgid operation not permitted''))" by auto
  from t [where w = calm and c = box and ur = "''/rootfs''" and cp = "[]"
          and args = "[''/bin/true'']" and env = Map.empty] k
  have 3: "system_Setuid calm dockerRootUid = None \<and> system_Setgid calm dockerRootGid = None"
    "prefix (filter is_escalation
             (calls (snd (Init calm box ''/rootfs'' [] [''/bin/true''] (start Map.empty)))))
     [Prctl PR_SET_SECUREBITS (uintptr (secbit_keep_caps OR secbit_no_setuid_fixup)) 0 0 0,
      Setuid dockerRootUid, Setgid dockerRootGid, NewSyncPipe, Clone clone_flags]"
    by blast+
  from 3(2) have 4: "prefix (filter is_escalation
             (calls (snd (Init calm box ''/rootfs'' [] [''/bin/true''] (start Map.empty)))))
     [Prctl 28 6 0 0 0, Setuid 1017, Setgid 1017, NewSyncPipe, Clone clone_flags]"
    using securebits_value by (simp add: securebits_call_def dockerRootUid_def dockerRootGid_def)
  from u g k 1 2 3(1) 4 show ?thesis by simp
qed

text \<open>
  C7. \<open>RestoreParentDeathSignal(old)\<close> returns \<open>nil\<close> and does nothing when \<open>old\<close> is
  zero, whatever the current value is. When \<open>old\<close> is not zero its first call re-reads
  the current value; it installs a signal exactly when the read succeeds with a value
  different from \<open>old\<close>, and the signal it installs is \<open>old\<close>; it sends a signal
  exactly when that installation succeeded and the parent process id is 1, and then
  the signal is \<open>old\<close>, sent to the process itself as the last call, whose result is
  the result of the function. The source has no separate test for a new PID namespace:
  there \<open>Getppid\<close> is 0, not 1.
\<close>

theorem RestoreParentDeathSignal_guardian:
  "RestoreParentDeathSignal w 0 s = (None, s) \<and>
   (let r = fst (RestoreParentDeathSignal w old s);
        X = new_calls s (snd (RestoreParentDeathSignal w old s)) in
    (old \<noteq> 0 \<longrightarrow> X \<noteq> [] \<and> hd X = GetParentDeathSignal) \<and>
    (ParentDeathSignal v \<in> set X \<longleftrightarrow>
       old \<noteq> 0 \<and> v = uintptr old \<and>
       (\<exists>current. current_ParentDeathSignal w = Inr current \<and> current \<noteq> old)) \<and>
    (Kill p sig \<in> set X \<longleftrightarrow>
       ParentDeathSignal (uintptr old) \<in> set X \<and>
       system_ParentDeathSignal w (uintptr old) = None \<and>
       syscall_Getppid w = 1 \<and> p = syscall_Getpid w \<and> sig = old) \<and>
    (Kill p sig \<in> set X \<longrightarrow>
       last X = Kill p sig \<and> r = map_option External (syscall_Kill w p sig)))"
  unfolding Let_def
  by (auto simp: Restore_closed new_calls_def split: sum.splits option.splits if_splits)

theorem RestoreParentDeathSignal_guardian_witness:
  "(15::int) \<noteq> 0 \<and>
   RestoreParentDeathSignal orphaned 0 (start Map.empty) = (None, start Map.empty) \<and>
   hd (new_calls (start Map.empty) (snd (RestoreParentDeathSignal orphaned 15 (start Map.empty))))
     = GetParentDeathSignal \<and>
   ParentDeathSignal 15 \<in>
     set (new_calls (start Map.empty) (snd (RestoreParentDeathSignal orphaned 15 (start Map.empty)))) \<and>
   Kill 7 15 \<in>
     set (new_calls (start Map.empty) (snd (RestoreParentDeathSignal orphaned 15 (start Map.empty)))) \<and>
   last (new_calls (start Map.empty) (snd (RestoreParentDeathSignal orphaned 15 (start Map.empty))))
     = Kill 7 15 \<and>
   fst (RestoreParentDeathSignal orphaned 15 (start Map.empty)) = None"
proof -
  have cur: "current_ParentDeathSignal orphaned = Inr 0"
    "system_ParentDeathSignal orphaned 15 = None"
    "syscall_Getppid orphaned = 1" "syscall_Getpid orphaned = 7"
    "syscall_Kill orphaned 7 15 = None" "uintptr 15 = 15"
    by (simp_all add: eval_world uintptr_def)
  from RestoreParentDeathSignal_guardian
         [where w = orphaned and s = "start Map.empty" and old = 15 and v = 15 and p = 7
            and sig = 15, unfolded Let_def] cur
  show ?thesis
    by auto
qed

text \<open>
  C8. When some endpoint of the container has a type with no registered strategy,
  \<open>Init\<close> returns an error and every call it issued belongs to the steps before the
  dispatch or to the dispatch: no label initialisation, mount namespace, host name,
  \<open>Setuid\<close> or \<open>Setgid\<close>. When the last call is a failed strategy lookup, the error is
  \<open>setup networking \<close> followed by the lookup's message. The strategy invocations in
  the log are, in order, an initial part of the invocations due to the endpoints (the
  resolved strategy, the endpoint, the handshake payload), and all of them, once each,
  as soon as the dispatch is over (the label initialisation is in the log).
\<close>

theorem Init_network_dispatch:
  assumes run: "Init w c ur cp args (start env) = (out, s')"
  shows "(\<forall>n m. n \<in> set (Networks c) \<and> network_GetStrategy w (Type n) = Inl m \<longrightarrow>
            (\<exists>e. out = Return (Some e)) \<and>
            list_all (\<lambda>x. stage x \<le> 1) (calls s') \<and>
            LabelInit \<notin> set (calls s') \<and>
            (\<forall>rootfs console. InitializeMountNamespace rootfs console \<notin> set (calls s')) \<and>
            (\<forall>name. Sethostname name \<notin> set (calls s')) \<and>
            (\<forall>uid. Setuid uid \<notin> set (calls s')) \<and>
            (\<forall>gid. Setgid gid \<notin> set (calls s'))) \<and>
         (\<forall>t m. calls s' \<noteq> [] \<and> last (calls s') = GetStrategy t \<and>
                network_GetStrategy w t = Inl m \<longrightarrow>
            out = Return (Some (Errorf (''setup networking '' @ m)))) \<and>
         (\<forall>context. syncPipe_ReadFromParent w = Inr context \<longrightarrow>
            prefix (map Some (filter is_Initialize (calls s')))
                   (map (Initialize_of w context) (Networks c)) \<and>
            (LabelInit \<in> set (calls s') \<longrightarrow>
               map Some (filter is_Initialize (calls s')) =
               map (Initialize_of w context) (Networks c)))"
proof -
  from run obtain XA R rA where
    log: "calls s' = XA @ R" and A: "setup_log w c rA XA"
    and R: "\<forall>x\<in>set R. 3 \<le> stage x"
    and stop: "R = [] \<longrightarrow> rA = Inl out \<or> rA = Inr ()" and go: "R \<noteq> [] \<longrightarrow> rA = Inr ()"
    by (rule Init_dispatch_frame)
  from R have fR: "filter is_Initialize R = []" by (rule low_stage_not_Initialize)
  from R have nR: "LabelInit \<notin> set R" by fastforce
  have unreg: "(\<exists>e. out = Return (Some e)) \<and> list_all (\<lambda>x. stage x \<le> 1) (calls s')"
    if "n \<in> set (Networks c)" "network_GetStrategy w (Type n) = Inl m" for n m
  proof -
    from setup_log_unregistered [OF A that] have low: "\<forall>x\<in>set XA. stage x \<le> 1" .
    then have "LabelInit \<notin> set XA" by fastforce
    with setup_log_result [OF A] obtain e where e: "rA = Inl (Return (Some e))" by auto
    with go stop have "R = []" "rA = Inl out" by auto
    with e low show ?thesis by (auto simp: log list_all_iff)
  qed
  have none: "LabelInit \<notin> set X \<and>
      (\<forall>rootfs console. InitializeMountNamespace rootfs console \<notin> set X) \<and>
      (\<forall>name. Sethostname name \<notin> set X) \<and>
      (\<forall>uid. Setuid uid \<notin> set X) \<and> (\<forall>gid. Setgid gid \<notin> set X)"
    if "list_all (\<lambda>x. stage x \<le> 1) X" for X
    using that by (fastforce simp: list_all_iff)
  have last_call: "out = Return (Some (Errorf (''setup networking '' @ m)))"
    if "calls s' \<noteq> []" "last (calls s') = GetStrategy t" "network_GetStrategy w t = Inl m" for t m
  proof -
    have "R = []"
    proof (rule ccontr)
      assume "R \<noteq> []"
      with that(2) have "GetStrategy t \<in> set R"
        by (metis last_appendR last_in_set log)
      with R show False by fastforce
    qed
    with that log have "XA \<noteq> []" "last XA = GetStrategy t" by simp_all
    with A that(3) have "rA = Inl (Return (Some (Errorf (''setup networking '' @ m))))"
      by (intro setup_log_last)
    with stop \<open>R = []\<close> show ?thesis by auto
  qed
  have payload: "prefix (map Some (filter is_Initialize (calls s')))
                   (map (Initialize_of w context) (Networks c)) \<and>
            (LabelInit \<in> set (calls s') \<longrightarrow>
               map Some (filter is_Initialize (calls s')) =
               map (Initialize_of w context) (Networks c))"
    if "syncPipe_ReadFromParent w = Inr context" for "context"
  proof -
    from setup_log_payload [OF A that] fR nR show ?thesis by (simp add: log)
  qed
  have p1: "\<forall>n m. n \<in> set (Networks c) \<and> network_GetStrategy w (Type n) = Inl m \<longrightarrow>
            (\<exists>e. out = Return (Some e)) \<and>
            list_all (\<lambda>x. stage x \<le> 1) (calls s') \<and>
            LabelInit \<notin> set (calls s') \<and>
            (\<forall>rootfs console. InitializeMountNamespace rootfs console \<notin> set (calls s')) \<and>
            (\<forall>name. Sethostname name \<notin> set (calls s')) \<and>
            (\<forall>uid. Setuid uid \<notin> set (calls s')) \<and>
            (\<forall>gid. Setgid gid \<notin> set (calls s'))"
  proof (intro allI impI, elim conjE)
    fix n m
    assume a: "n \<in> set (Networks c)" "network_GetStrategy w (Type n) = Inl m"
    from unreg [OF a] have e: "\<exists>e. out = Return (Some e)"
      and l: "list_all (\<lambda>x. stage x \<le> 1) (calls s')" by simp_all
    from none [OF l] e l show "(\<exists>e. out = Return (Some e)) \<and>
            list_all (\<lambda>x. stage x \<le> 1) (calls s') \<and>
            LabelInit \<notin> set (calls s') \<and>
            (\<forall>rootfs console. InitializeMountNamespace rootfs console \<notin> set (calls s')) \<and>
            (\<forall>name. Sethostname name \<notin> set (calls s')) \<and>
            (\<forall>uid. Setuid uid \<notin> set (calls s')) \<and>
            (\<forall>gid. Setgid gid \<notin> set (calls s'))"
      by simp
  qed
  have p2: "\<forall>t m. calls s' \<noteq> [] \<and> last (calls s') = GetStrategy t \<and>
                network_GetStrategy w t = Inl m \<longrightarrow>
            out = Return (Some (Errorf (''setup networking '' @ m)))"
    using last_call by simp
  have p3: "\<forall>context. syncPipe_ReadFromParent w = Inr context \<longrightarrow>
            prefix (map Some (filter is_Initialize (calls s')))
                   (map (Initialize_of w context) (Networks c)) \<and>
            (LabelInit \<in> set (calls s') \<longrightarrow>
               map Some (filter is_Initialize (calls s')) =
               map (Initialize_of w context) (Networks c))"
    using payload by simp
  show ?thesis by (rule conjI [OF p1 conjI [OF p2 p3]])
qed

theorem Init_network_dispatch_witness:
  "macvlan0 \<in> set (Networks two_networks) \<and>
   network_GetStrategy calm (Type macvlan0) = Inl ''unknown network type'' \<and>
   last (calls (snd (Init calm two_networks ''/rootfs'' [] [''/bin/true''] (start Map.empty)))) =
     GetStrategy ''macvlan'' \<and>
   fst (Init calm two_networks ''/rootfs'' [] [''/bin/true''] (start Map.empty)) =
     Return (Some (Errorf ''setup networking unknown network type'')) \<and>
   list_all (\<lambda>x. stage x \<le> 1)
     (calls (snd (Init calm two_networks ''/rootfs'' [] [''/bin/true''] (start Map.empty)))) \<and>
   InitializeMountNamespace ''/rootfs'' [] \<notin>
     set (calls (snd (Init calm two_networks ''/rootfs'' [] [''/bin/true''] (start Map.empty)))) \<and>
   Setuid 1017 \<notin>
     set (calls (snd (Init calm two_networks ''/rootfs'' [] [''/bin/true''] (start Map.empty)))) \<and>
   syncPipe_ReadFromParent calm = Inr Map.empty \<and>
   LabelInit \<in> set (calls (snd (Init calm box ''/rootfs'' [] [''/bin/true''] (start Map.empty)))) \<and>
   filter is_Initialize
     (calls (snd (Init calm box ''/rootfs'' [] [''/bin/true''] (start Map.empty)))) =
     [Initialize ''veth'' veth0 Map.empty]"
proof -
  have n: "macvlan0 \<in> set (Networks two_networks)"
    "network_GetStrategy calm (Type macvlan0) = Inl ''unknown network type''"
    "network_GetStrategy calm ''macvlan'' = Inl ''unknown network type''"
    by (simp_all add: eval_world eval_box)
  have l: "calls (snd (Init calm two_networks ''/rootfs'' [] [''/bin/true''] (start Map.empty))) \<noteq> []"
    "last (calls (snd (Init calm two_networks ''/rootfs'' [] [''/bin/true''] (start Map.empty)))) =
     GetStrategy ''macvlan''"
    by (simp_all add: run_two_networks)
  have p: "syncPipe_ReadFromParent calm = Inr Map.empty"
    "LabelInit \<in> set (calls (snd (Init calm box ''/rootfs'' [] [''/bin/true''] (start Map.empty))))"
    "map (Initialize_of calm Map.empty) (Networks box) = [Some (Initialize ''veth'' veth0 Map.empty)]"
    by (simp add: eval_world, simp add: run_calm, simp add: eval_world eval_box Initialize_of_def)
  note t = Init_network_dispatch [OF surjective_pairing]
  from t [where w = calm and c = two_networks and ur = "''/rootfs''" and cp = "[]"
          and args = "[''/bin/true'']" and env = Map.empty] n(1,2)
  have 1: "list_all (\<lambda>x. stage x \<le> 1)
     (calls (snd (Init calm two_networks ''/rootfs'' [] [''/bin/true''] (start Map.empty))))"
    "InitializeMountNamespace ''/rootfs'' [] \<notin>
     set (calls (snd (Init calm two_networks ''/rootfs'' [] [''/bin/true''] (start Map.empty))))"
    "Setuid 1017 \<notin>
     set (calls (snd (Init calm two_networks ''/rootfs'' [] [''/bin/true''] (start Map.empty))))"
    by blast+
  from t [where w = calm and c = two_networks and ur = "''/rootfs''" and cp = "[]"
          and args = "[''/bin/true'']" and env = Map.empty] n(3) l
  have 2: "fst (Init calm two_networks ''/rootfs'' [] [''/bin/true''] (start Map.empty)) =
     Return (Some (Errorf (''setup networking '' @ ''unknown network type'')))"
    by blast
  from t [where w = calm and c = box and ur = "''/rootfs''" and cp = "[]"
          and args = "[''/bin/true'']" and env = Map.empty] p(1,2)
  have "map Some (filter is_Initialize
     (calls (snd (Init calm box ''/rootfs'' [] [''/bin/true''] (start Map.empty))))) =
     map (Initialize_of calm Map.empty) (Networks box)"
    by blast
  then have "map Some (filter is_Initialize
     (calls (snd (Init calm box ''/rootfs'' [] [''/bin/true''] (start Map.empty))))) =
     map Some [Initialize ''veth'' veth0 Map.empty]"
    unfolding p(3) by simp
  then have 3: "filter is_Initialize
     (calls (snd (Init calm box ''/rootfs'' [] [''/bin/true''] (start Map.empty)))) =
     [Initialize ''veth'' veth0 Map.empty]"
    by (simp only: inj_map_eq_map [OF inj_Some])
  from n l p 1 2 3 show ?thesis by simp
qed

text \<open>
  C9. When the write to \<open>/proc/<pid>/uid_map\<close> fails, \<open>writeUserMappings\<close> returns
  that error at once: the write to \<open>uid_map\<close> is the only call it issues, so
  \<open>/proc/<pid>/gid_map\<close>, a different path, is never written, and the rest of the
  process state is unchanged.
\<close>

theorem writeUserMappings_uid_map_error:
  assumes "ioutil_WriteFile w (uid_map_path pid) mappings mode_0644 = Some m"
  shows "fst (writeUserMappings w pid mappings s) = Some (External m) \<and>
         calls (snd (writeUserMappings w pid mappings s)) =
           calls s @ [WriteFile (uid_map_path pid) mappings mode_0644] \<and>
         environ (snd (writeUserMappings w pid mappings s)) = environ s \<and>
         uid_map_path pid \<noteq> gid_map_path pid"
  using assms by (simp add: writeUserMappings_closed paths_differ)

theorem writeUserMappings_uid_map_error_witness:
  "ioutil_WriteFile uid_denied (uid_map_path 4242) ''0 1017 1'' mode_0644 = Some ''permission denied'' \<and>
   fst (writeUserMappings uid_denied 4242 ''0 1017 1'' (start Map.empty)) =
     Some (External ''permission denied'') \<and>
   calls (snd (writeUserMappings uid_denied 4242 ''0 1017 1'' (start Map.empty))) =
     [WriteFile (uid_map_path 4242) ''0 1017 1'' mode_0644]"
proof -
  have h: "ioutil_WriteFile uid_denied (uid_map_path 4242) ''0 1017 1'' mode_0644 =
      Some ''permission denied''"
    by (simp add: eval_world)
  from writeUserMappings_uid_map_error [OF h, of "start Map.empty"] h show ?thesis
    by (simp add: start_def)
qed

text \<open>
  C10. The invalid-environment error of an entry is returned only for an entry of the
  declared environment that has no \<open>=\<close>. For the entry \<open>q\<close> that the loop reaches
  after applying all entries before it, the error is returned exactly when \<open>q\<close> has no
  \<open>=\<close>; when it has one, \<open>os.Setenv\<close> is called with its two halves and a failure of
  that call is what is returned. An entry \<open>=value\<close> splits into the empty key and
  \<open>value\<close>, so it takes the second path.
\<close>

theorem LoadContainerEnvironment_invalid_exactly:
  "(fst (LoadContainerEnvironment w c s) = Some (invalid_environment p) \<longrightarrow>
      p \<in> set (Env c) \<and> CHR ''='' \<notin> set p) \<and>
   (Env c = pre @ q # post \<and> (\<forall>x\<in>set pre. applies w x) \<longrightarrow>
      (fst (LoadContainerEnvironment w c s) = Some (invalid_environment q)
         \<longleftrightarrow> CHR ''='' \<notin> set q) \<and>
      (CHR ''='' \<in> set q \<longrightarrow>
         Setenv (key_of q) (val_of q) \<in> set (new_calls s (snd (LoadContainerEnvironment w c s))) \<and>
         (\<forall>m. os_Setenv w (key_of q) (val_of q) = Some m \<longrightarrow>
            fst (LoadContainerEnvironment w c s) = Some (External m)))) \<and>
   SplitN_eq_2 (CHR ''='' # v) = [[], v] \<and>
   key_of (CHR ''='' # v) = [] \<and> val_of (CHR ''='' # v) = v"
proof -
  have a: "p \<in> set (Env c) \<and> CHR ''='' \<notin> set p"
    if "fst (LoadContainerEnvironment w c s) = Some (invalid_environment p)" for p
    using that by (simp add: LoadContainerEnvironment_closed env_result_invalid)
  have b: "fst (LoadContainerEnvironment w c s) = Some (invalid_environment q)"
    if "Env c = pre @ q # post" "\<forall>x\<in>set pre. applies w x" "CHR ''='' \<notin> set q"
  proof -
    from that(3) have "\<not> applies w q" by (simp add: applies_def)
    with that show ?thesis
      by (simp add: LoadContainerEnvironment_closed env_result_def dropWhile_reached)
  qed
  have c: "Setenv (key_of q) (val_of q) \<in> set (new_calls s (snd (LoadContainerEnvironment w c s)))"
    if "Env c = pre @ q # post" "\<forall>x\<in>set pre. applies w x" "CHR ''='' \<in> set q"
    using env_log_reached [OF that(2,3), of post] that(1)
    by (simp add: LoadContainerEnvironment_closed new_calls_def Setenv_of_def)
  have d: "fst (LoadContainerEnvironment w c s) = Some (External m)"
    if "Env c = pre @ q # post" "\<forall>x\<in>set pre. applies w x" "CHR ''='' \<in> set q"
       "os_Setenv w (key_of q) (val_of q) = Some m" for m
  proof -
    from that(4) have "\<not> applies w q" by (simp add: applies_def)
    with that show ?thesis
      by (simp add: LoadContainerEnvironment_closed env_result_def dropWhile_reached)
  qed
  have e: "SplitN_eq_2 (CHR ''='' # v) = [[], v]" "key_of (CHR ''='' # v) = []"
    "val_of (CHR ''='' # v) = v"
    by (simp_all add: SplitN_eq_2_def key_of_def val_of_def)
  from a b c d e show ?thesis by blast
qed

theorem LoadContainerEnvironment_invalid_exactly_witness:
  "applies calm ''PATH=/bin'' \<and>
   CHR ''='' \<notin> set ''BAD'' \<and>
   ''BAD'' \<in> set (Env path_bad_home) \<and>
   fst (LoadContainerEnvironment calm path_bad_home (start inherited)) =
     Some (invalid_environment ''BAD'') \<and>
   CHR ''='' \<in> set ''=x'' \<and>
   os_Setenv calm (key_of ''=x'') (val_of ''=x'') = Some ''invalid argument'' \<and>
   Setenv [] ''x'' \<in>
     set (new_calls (start inherited) (snd (LoadContainerEnvironment calm nokey_bad (start inherited)))) \<and>
   fst (LoadContainerEnvironment calm nokey_bad (start inherited)) =
     Some (External ''invalid argument'') \<and>
   fst (LoadContainerEnvironment calm nokey_bad (start inherited)) \<noteq>
     Some (invalid_environment ''=x'')"
proof -
  have h1: "Env path_bad_home = [''PATH=/bin''] @ ''BAD'' # [''HOME=/root'']"
    "\<forall>x\<in>set [''PATH=/bin'']. applies calm x" "CHR ''='' \<notin> set ''BAD''"
    by (simp_all add: eval_box eval_world applies_def key_of_def val_of_def)
  have h2: "Env nokey_bad = [] @ ''=x'' # [''BAD'']" "\<forall>x\<in>set []. applies calm x"
    "CHR ''='' \<in> set ''=x''" "os_Setenv calm (key_of ''=x'') (val_of ''=x'') = Some ''invalid argument''"
    "key_of ''=x'' = []" "val_of ''=x'' = ''x''"
    by (simp_all add: eval_box eval_world key_of_def val_of_def)
  note t1 = LoadContainerEnvironment_invalid_exactly
    [where w = calm and c = path_bad_home and s = "start inherited" and p = "''BAD''"
       and pre = "[''PATH=/bin'']" and q = "''BAD''" and post = "[''HOME=/root'']"]
  note t2 = LoadContainerEnvironment_invalid_exactly
    [where w = calm and c = nokey_bad and s = "start inherited"
       and pre = "[]" and q = "''=x''" and post = "[''BAD'']"]
  from t1 h1 have A: "fst (LoadContainerEnvironment calm path_bad_home (start inherited)) =
     Some (invalid_environment ''BAD'')" by blast
  with t1 have B: "''BAD'' \<in> set (Env path_bad_home)" by blast
  from t2 h2(1-4) have C: "Setenv (key_of ''=x'') (val_of ''=x'') \<in>
     set (new_calls (start inherited) (snd (LoadContainerEnvironment calm nokey_bad (start inherited))))"
    "fst (LoadContainerEnvironment calm nokey_bad (start inherited)) =
     Some (External ''invalid argument'')"
    "fst (LoadContainerEnvironment calm nokey_bad (start inherited)) \<noteq>
     Some (invalid_environment ''=x'')"
    by blast+
  from A B C h1 h2 show ?thesis by simp
qed

end
